theory Spec2Isabelle
  imports Main "HOL-Library.Sublist"
begin

section \<open>Python string operations used by create_project.py\<close>

text \<open>
  A Python \<open>str\<close> is modelled as a HOL \<open>string\<close>, one \<open>char\<close> per code point (the
  model covers text in the range 0..255). File contents are the text as Python sees it
  after decoding, that is after universal-newline translation.
\<close>

text \<open>\<open>str.isspace\<close> on one code point below 256: TAB..CR, FS..US, space, NEL, NBSP.\<close>

definition isspace :: "char \<Rightarrow> bool" where
  "isspace c =
     (let n = (of_char c :: nat)
      in (9 \<le> n \<and> n \<le> 13) \<or> (28 \<le> n \<and> n \<le> 32) \<or> n = 133 \<or> n = 160)"

definition lstrip :: "string \<Rightarrow> string" where
  "lstrip s = dropWhile isspace s"

definition rstrip :: "string \<Rightarrow> string" where
  "rstrip s = rev (dropWhile isspace (rev s))"

text \<open>\<open>s.strip()\<close>\<close>

definition strip :: "string \<Rightarrow> string" where
  "strip s = rstrip (lstrip s)"

text \<open>\<open>s.startswith(p)\<close>\<close>

definition startswith :: "string \<Rightarrow> string \<Rightarrow> bool" where
  "startswith s p = prefix p s"

text \<open>\<open>sub in s\<close>: \<open>sub\<close> occurs in \<open>s\<close> as a contiguous substring.\<close>

fun contains :: "string \<Rightarrow> string \<Rightarrow> bool" where
  "contains [] sub = (sub = [])"
| "contains (c # cs) sub = (prefix sub (c # cs) \<or> contains cs sub)"

text \<open>
  \<open>s.replace(old, new)\<close>: the occurrences of \<open>old\<close> are found from left to right, without
  overlap, and each is replaced by \<open>new\<close>. For an empty \<open>old\<close> Python puts \<open>new\<close> before
  every character and at the end.
\<close>

function replace :: "string \<Rightarrow> string \<Rightarrow> string \<Rightarrow> string" where
  "replace [] old new = (if old = [] then new else [])"
| "replace (c # cs) old new =
     (if old = [] then new @ c # replace cs old new
      else if prefix old (c # cs) then new @ replace (drop (length old) (c # cs)) old new
      else c # replace cs old new)"
  by pat_completeness auto
termination
  by (relation "measure (\<lambda>(s, old, new). length s)") auto

text \<open>
  \<open>f.readlines()\<close> on the whole content: the content is cut after every newline; every
  line but possibly the last ends with its newline.
\<close>

fun readlines :: "string \<Rightarrow> string list" where
  "readlines [] = []"
| "readlines (c # cs) =
     (if c = CHR ''\<newline>'' then [c] # readlines cs
      else (case readlines cs of [] \<Rightarrow> [[c]] | l # ls \<Rightarrow> (c # l) # ls))"

text \<open>\<open>f.writelines(lines)\<close> writes the lines one after the other, adding nothing.\<close>

definition writelines :: "string list \<Rightarrow> string" where
  "writelines ls = concat ls"

section \<open>The .env update (lines 113 to 153)\<close>

text \<open>The body of the loop \<open>for line in lines\<close>: the line appended to \<open>updated_lines\<close>.\<close>

definition update_line :: "string \<Rightarrow> string" where
  "update_line line =
     (let stripped = strip line in
      if startswith stripped ''DB_CONNECTION'' then
        (if contains stripped ''=mysql'' \<or> contains stripped ''=sqlite''
         then ''DB_CONNECTION=pgsql\<newline>''
         else line)
      else if startswith stripped ''#'' \<and> contains stripped ''DB_HOST'' then
        ''DB_HOST=pgsql\<newline>''
      else if startswith stripped ''#'' \<and> contains stripped ''DB_PORT'' then
        ''DB_PORT=5432\<newline>''
      else if startswith stripped ''#'' \<and> contains stripped ''DB_DATABASE'' then
        ''DB_DATABASE=laravel\<newline>''
      else if startswith stripped ''#'' \<and> contains stripped ''DB_USERNAME'' then
        ''DB_USERNAME=sail\<newline>''
      else if startswith stripped ''#'' \<and> contains stripped ''DB_PASSWORD'' then
        ''DB_PASSWORD=password\<newline>''
      else if startswith stripped ''DB_HOST='' then ''DB_HOST=pgsql\<newline>''
      else if startswith stripped ''DB_PORT='' then ''DB_PORT=5432\<newline>''
      else if startswith stripped ''DB_DATABASE='' then ''DB_DATABASE=laravel\<newline>''
      else if startswith stripped ''DB_USERNAME='' then ''DB_USERNAME=sail\<newline>''
      else if startswith stripped ''DB_PASSWORD='' then ''DB_PASSWORD=password\<newline>''
      else line)"

definition updated_lines :: "string list \<Rightarrow> string list" where
  "updated_lines lines = map update_line lines"

text \<open>The content of .env after the update, from its content before.\<close>

definition update_env :: "string \<Rightarrow> string" where
  "update_env content = writelines (updated_lines (readlines content))"

section \<open>The composer.json update (lines 171 to 178)\<close>

definition update_composer :: "string \<Rightarrow> string" where
  "update_composer composer_content =
     replace composer_content ''php artisan'' ''./vendor/bin/sail artisan''"

section \<open>The vite.config.js update (lines 222 to 241)\<close>

text \<open>The string literals of lines 226 to 237, named for reference.\<close>

definition vue_import :: string where
  "vue_import = ''import vue from '@vitejs/plugin-vue'' @ [CHR 0x27]"

definition laravel_import :: string where
  "laravel_import = ''import laravel from 'laravel-vite-plugin';''"

definition laravel_vue_import :: string where
  "laravel_vue_import =
     ''import laravel from 'laravel-vite-plugin';\<newline>import vue from '@vitejs/plugin-vue';''"

definition laravel_call :: string where
  "laravel_call = ''        laravel({''"

definition vue_laravel_call :: string where
  "vue_laravel_call =
     ''        vue({\<newline>            template: {\<newline>                transformAssetUrls: {\<newline>                    base: null,\<newline>                    includeAbsolute: false,\<newline>                },\<newline>            },\<newline>        }),\<newline>        laravel({''"

text \<open>The content of vite.config.js after the update, from its content before.\<close>

definition update_vite :: "string \<Rightarrow> string" where
  "update_vite vite_content =
     (if \<not> contains vite_content vue_import then
        (let vite_content1 = replace vite_content laravel_import laravel_vue_import
         in if \<not> contains vite_content1 ''vue({''
            then replace vite_content1 laravel_call vue_laravel_call
            else vite_content1)
      else vite_content)"

section \<open>Notions used to state the properties of the edits\<close>

text \<open>
  The pieces of \<open>s\<close> between the occurrences of \<open>old\<close> that a scan from left to right
  finds (what \<open>s.split(old)\<close> returns for a non-empty \<open>old\<close>; an empty \<open>old\<close>, which
  Python rejects, finds nothing here).
\<close>

function segments :: "string \<Rightarrow> string \<Rightarrow> string list" where
  "segments [] old = [[]]"
| "segments (c # cs) old =
     (if old \<noteq> [] \<and> prefix old (c # cs) then [] # segments (drop (length old) (c # cs)) old
      else (case segments cs old of [] \<Rightarrow> [[c]] | seg # segs \<Rightarrow> (c # seg) # segs))"
  by pat_completeness auto
termination
  by (relation "measure (\<lambda>(s, old). length s)") auto

text \<open>\<open>sep.join(segs)\<close>\<close>

fun join :: "string \<Rightarrow> string list \<Rightarrow> string" where
  "join sep [] = []"
| "join sep [x] = x"
| "join sep (x # y # ys) = x @ sep @ join sep (y # ys)"

text \<open>\<open>s.count(old)\<close>: the number of occurrences found from left to right without overlap.\<close>

definition count_occ :: "string \<Rightarrow> string \<Rightarrow> nat" where
  "count_occ s old = length (segments s old) - 1"

text \<open>The number of lines of a file content, as \<open>readlines\<close> counts them.\<close>

definition line_count :: "string \<Rightarrow> nat" where
  "line_count s = length (readlines s)"

text \<open>
  The value of an entry \<open>KEY=VALUE\<close>: the text after the first equals sign (empty when
  there is none).
\<close>

definition env_value :: "string \<Rightarrow> string" where
  "env_value stripped = drop 1 (dropWhile (\<lambda>c. c \<noteq> CHR ''='') stripped)"

text \<open>
  \<open>no_start m a\<close>: an occurrence of \<open>m\<close> can start at no position of \<open>a\<close>, whatever
  follows \<open>a\<close>.
\<close>

fun no_start :: "string \<Rightarrow> string \<Rightarrow> bool" where
  "no_start m [] = True"
| "no_start m (c # cs) = (\<not> prefix m (c # cs) \<and> \<not> prefix (c # cs) m \<and> no_start m cs)"

text \<open>Well-formed results of \<open>readlines\<close>: only the last line may lack its newline.\<close>

definition is_line :: "string \<Rightarrow> bool" where
  "is_line l \<longleftrightarrow> l \<noteq> [] \<and> CHR ''\<newline>'' \<notin> set (butlast l)"

fun lines_ok :: "string list \<Rightarrow> bool" where
  "lines_ok [] = True"
| "lines_ok [l] = is_line l"
| "lines_ok (l # l' # ls) = (is_line l \<and> last l = CHR ''\<newline>'' \<and> lines_ok (l' # ls))"

section \<open>The file contents the script writes\<close>

text \<open>\<open>docker_compose_content\<close> (line 35)\<close>
definition docker_compose_content :: string where
  "docker_compose_content =
     ''version: '3.8'\<newline>'' @
     ''\<newline>'' @
     ''services:\<newline>'' @
     ''    laravel.test:\<newline>'' @
     ''        build:\<newline>'' @
     ''            context: ./vendor/laravel/sail/runtimes/8.4\<newline>'' @
     ''            dockerfile: Dockerfile\<newline>'' @
     ''            args:\<newline>'' @
     ''                WWWGROUP: '${WWWGROUP}'\<newline>'' @
     ''        image: sail-8.4/app\<newline>'' @
     ''        extra_hosts:\<newline>'' @
     ''            - 'host.docker.internal:host-gateway'\<newline>'' @
     ''        ports:\<newline>'' @
     ''            - '${APP_PORT:-80}:80'\<newline>'' @
     ''            - '${VITE_PORT:-5173}:5173'\<newline>'' @
     ''        environment:\<newline>'' @
     ''            WWWUSER: '${WWWUSER}'\<newline>'' @
     ''            LARAVEL_SAIL: 1\<newline>'' @
     ''            XDEBUG_MODE: '${XDEBUG_MODE:-off}'\<newline>'' @
     ''            XDEBUG_CONFIG: '${XDEBUG_CONFIG:-client_host=host.docker.internal}'\<newline>'' @
     ''        volumes:\<newline>'' @
     ''            - '.:/var/www/html'\<newline>'' @
     ''        networks:\<newline>'' @
     ''            - sail\<newline>'' @
     ''        depends_on:\<newline>'' @
     ''            - pgsql\<newline>'' @
     ''            - redis\<newline>'' @
     ''\<newline>'' @
     ''    pgsql:\<newline>'' @
     ''        image: 'postgres:15'\<newline>'' @
     ''        environment:\<newline>'' @
     ''            PGPASSWORD: '${DB_PASSWORD:-password}'\<newline>'' @
     ''            POSTGRES_DB: '${DB_DATABASE:-laravel}'\<newline>'' @
     ''            POSTGRES_USER: '${DB_USERNAME:-sail}'\<newline>'' @
     ''            POSTGRES_PASSWORD: '${DB_PASSWORD:-password}'\<newline>'' @
     ''            POSTGRES_HOST_AUTH_METHOD: 'trust'\<newline>'' @
     ''        ports:\<newline>'' @
     ''            - '${FORWARD_DB_PORT:-5432}:5432'\<newline>'' @
     ''        volumes:\<newline>'' @
     ''            - 'sailpgsql:/var/lib/postgresql/data'\<newline>'' @
     ''        networks:\<newline>'' @
     ''            - sail\<newline>'' @
     ''        healthcheck:\<newline>'' @
     ''            test: [\"CMD-SHELL\", \"pg_isready -U ${DB_USERNAME:-sail}\"]\<newline>'' @
     ''            retries: 3\<newline>'' @
     ''            timeout: 5s\<newline>'' @
     ''\<newline>'' @
     ''    redis:\<newline>'' @
     ''        image: 'redis:alpine'\<newline>'' @
     ''        ports:\<newline>'' @
     ''            - '${FORWARD_REDIS_PORT:-6379}:6379'\<newline>'' @
     ''        volumes:\<newline>'' @
     ''            - 'sailredis:/data'\<newline>'' @
     ''        networks:\<newline>'' @
     ''            - sail\<newline>'' @
     ''        healthcheck:\<newline>'' @
     ''            test: [\"CMD\", \"redis-cli\", \"ping\"]\<newline>'' @
     ''            retries: 3\<newline>'' @
     ''            timeout: 5s\<newline>'' @
     ''\<newline>'' @
     ''networks:\<newline>'' @
     ''    sail:\<newline>'' @
     ''        driver: bridge\<newline>'' @
     ''\<newline>'' @
     ''volumes:\<newline>'' @
     ''    sailpgsql:\<newline>'' @
     ''        driver: local\<newline>'' @
     ''    sailredis:\<newline>'' @
     ''        driver: local\<newline>''"

text \<open>\<open>app_css_content\<close> (line 200)\<close>
definition app_css_content :: string where
  "app_css_content =
     ''@import \"tailwindcss\";\<newline>'' @
     ''\<newline>'' @
     ''@source '../../vendor/laravel/framework/src/Illuminate/Pagination/resources/views/*.blade.php';\<newline>'' @
     ''@source '../../storage/framework/views/*.php';\<newline>'' @
     ''@source '../**/*.blade.php';\<newline>'' @
     ''@source '../**/*.js';\<newline>''"

text \<open>\<open>app_blade_content\<close> (line 259)\<close>
definition app_blade_content :: string where
  "app_blade_content =
     ''<html>\<newline>'' @
     ''    <head>\<newline>'' @
     ''        <meta charset=\"utf-8\" />\<newline>'' @
     ''        <meta name=\"viewport\" content=\"width=device-width, initial-scale=1\">\<newline>'' @
     ''        @vite(['resources/css/app.css', 'resources/js/app.js'])\<newline>'' @
     ''        @inertiaHead\<newline>'' @
     ''    </head>\<newline>'' @
     ''    <body>\<newline>'' @
     ''        @inertia\<newline>'' @
     ''    </body>\<newline>'' @
     ''</html>\<newline>''"

text \<open>\<open>bootstrap_app_content\<close> (line 287)\<close>
definition bootstrap_app_content :: string where
  "bootstrap_app_content =
     ''<?php\<newline>'' @
     ''\<newline>'' @
     ''use Illuminate'' @ [CHR 0x5C] @ ''Foundation'' @ [CHR 0x5C] @ ''Application;\<newline>'' @
     ''use Illuminate'' @ [CHR 0x5C] @ ''Foundation'' @ [CHR 0x5C] @ ''Configuration'' @ [CHR 0x5C] @ ''Exceptions;\<newline>'' @
     ''use Illuminate'' @ [CHR 0x5C] @ ''Foundation'' @ [CHR 0x5C] @ ''Configuration'' @ [CHR 0x5C] @ ''Middleware;\<newline>'' @
     ''use App'' @ [CHR 0x5C] @ ''Http'' @ [CHR 0x5C] @ ''Middleware'' @ [CHR 0x5C] @ ''HandleInertiaRequests;\<newline>'' @
     ''\<newline>'' @
     ''return Application::configure(basePath: dirname(__DIR__))\<newline>'' @
     ''    ->withRouting(\<newline>'' @
     ''        web: __DIR__.'/../routes/web.php',\<newline>'' @
     ''        commands: __DIR__.'/../routes/console.php',\<newline>'' @
     ''        health: '/up',\<newline>'' @
     ''    )\<newline>'' @
     ''    ->withMiddleware(function (Middleware $middleware): void {\<newline>'' @
     ''        $middleware->web(append: [\<newline>'' @
     ''            HandleInertiaRequests::class,\<newline>'' @
     ''        ]);\<newline>'' @
     ''    })\<newline>'' @
     ''    ->withExceptions(function (Exceptions $exceptions): void {\<newline>'' @
     ''        //\<newline>'' @
     ''    })->create();\<newline>''"

text \<open>\<open>app_js_content\<close> (line 320)\<close>
definition app_js_content :: string where
  "app_js_content =
     ''import { createApp, h } from 'vue'\<newline>'' @
     ''import { createInertiaApp } from '@inertiajs/vue3'\<newline>'' @
     ''\<newline>'' @
     ''createInertiaApp({\<newline>'' @
     ''    resolve: name => {\<newline>'' @
     ''        const pages = import.meta.glob('./Pages/**/*.vue', { eager: true })\<newline>'' @
     ''        return pages[`./Pages/${name}.vue`]\<newline>'' @
     ''    },\<newline>'' @
     ''    setup({ el, App, props, plugin }) {\<newline>'' @
     ''        createApp({ render: () => h(App, props) })\<newline>'' @
     ''            .use(plugin)\<newline>'' @
     ''            .mount(el)\<newline>'' @
     ''    },\<newline>'' @
     ''})\<newline>''"

text \<open>\<open>web_routes_content\<close> (line 346)\<close>
definition web_routes_content :: string where
  "web_routes_content =
     ''<?php\<newline>'' @
     ''\<newline>'' @
     ''use Illuminate'' @ [CHR 0x5C] @ ''Support'' @ [CHR 0x5C] @ ''Facades'' @ [CHR 0x5C] @ ''Route;\<newline>'' @
     ''use Inertia'' @ [CHR 0x5C] @ ''Inertia;\<newline>'' @
     ''\<newline>'' @
     ''Route::get('/', function () {\<newline>'' @
     ''    return Inertia::render('Welcome');\<newline>'' @
     ''});\<newline>''"

text \<open>\<open>welcome_vue_content\<close> (line 369)\<close>
definition welcome_vue_content :: string where
  "welcome_vue_content =
     ''<script setup>\<newline>'' @
     ''\<newline>'' @
     ''\<newline>'' @
     ''</script>\<newline>'' @
     ''\<newline>'' @
     ''<template>\<newline>'' @
     ''    <div>\<newline>'' @
     ''        <h1>Test</h1>\<newline>'' @
     ''    </div>\<newline>'' @
     ''</template>\<newline>''"

section \<open>The world the script runs in\<close>

text \<open>
  A path is the list of its components. The file system maps absolute paths to files and
  directories (the root is the empty path); a relative path is resolved against the
  working directory. There are no links and no permissions: opening a file fails only
  when the path does not fit (no such file, a directory in the way, no parent directory).
\<close>

type_synonym path = "string list"

datatype node = File string | Dir

record world =
  fs :: "path \<Rightarrow> node option"
  cwd :: path
  stdin :: "string list"
  stdout :: "string list"

text \<open>A command line: an argument vector, or a string given to the shell (\<open>shell=True\<close>).\<close>

datatype command = Argv "string list" | Shell string

text \<open>
  The exceptions of the script: \<open>subprocess.CalledProcessError(returncode, cmd)\<close>, the
  \<open>OSError\<close> of a program that cannot be launched, the \<open>OSError\<close> of a file operation, and
  the \<open>EOFError\<close> of \<open>input\<close>.
\<close>

datatype exn = CalledProcessError int command | ExecError command | OSError path | EOFError

text \<open>
  A statement takes the world to a new world and either completes (\<open>None\<close>) or raises.
  An exception is never caught in the script, so it ends the run in the world reached.
\<close>

type_synonym outcome = "exn option \<times> world"

type_synonym stmt = "world \<Rightarrow> outcome"

text \<open>
  What the external programs do is not part of the script: a \<open>system\<close> gives, for a
  command and the world it starts in, the exit code (\<open>None\<close> when the program cannot be
  launched) and the file system it leaves behind.
\<close>

type_synonym system = "command \<Rightarrow> world \<Rightarrow> int option \<times> (path \<Rightarrow> node option)"

subsection \<open>Paths\<close>

text \<open>The components of a path string; pathlib drops empty components and single dots.\<close>

definition parts :: "string \<Rightarrow> path" where
  "parts s = filter (\<lambda>p. p \<noteq> [] \<and> p \<noteq> ''.'') (segments s ''/'')"

text \<open>\<open>Path(s)\<close> for a relative path string.\<close>

definition Path :: "string \<Rightarrow> path" where
  "Path s = parts s"

text \<open>\<open>base / name\<close>, for an absolute \<open>base\<close>: an absolute \<open>name\<close> replaces \<open>base\<close>.\<close>

definition joinpath :: "path \<Rightarrow> string \<Rightarrow> path" where
  "joinpath base name = (if startswith name ''/'' then parts name else base @ parts name)"

definition is_dir :: "(path \<Rightarrow> node option) \<Rightarrow> path \<Rightarrow> bool" where
  "is_dir f q = (q = [] \<or> f q = Some Dir)"

definition is_file :: "(path \<Rightarrow> node option) \<Rightarrow> path \<Rightarrow> bool" where
  "is_file f q = (case f q of Some (File c) \<Rightarrow> True | _ \<Rightarrow> False)"

text \<open>\<open>p.exists()\<close>\<close>

definition exists :: "world \<Rightarrow> path \<Rightarrow> bool" where
  "exists w p = (cwd w @ p = [] \<or> fs w (cwd w @ p) \<noteq> None)"

subsection \<open>Statements\<close>

text \<open>\<open>print(msg)\<close>\<close>

definition print :: "string \<Rightarrow> stmt" where
  "print msg w = (None, w\<lparr>stdout := stdout w @ [msg @ ''\<newline>'']\<rparr>)"

text \<open>\<open>input(prompt)\<close>: the prompt is written, then a line is read.\<close>

definition input :: "string \<Rightarrow> world \<Rightarrow> (exn + string) \<times> world" where
  "input prompt w =
     (case stdin w of
        [] \<Rightarrow> (Inl EOFError, w\<lparr>stdout := stdout w @ [prompt]\<rparr>)
      | l # ls \<Rightarrow> (Inr l, w\<lparr>stdin := ls, stdout := stdout w @ [prompt]\<rparr>))"

text \<open>\<open>subprocess.run(cmd, check=True)\<close>\<close>

definition run :: "system \<Rightarrow> command \<Rightarrow> stmt" where
  "run sys cmd w =
     (case sys cmd w of
        (None, f) \<Rightarrow> (Some (ExecError cmd), w\<lparr>fs := f\<rparr>)
      | (Some returncode, f) \<Rightarrow>
          (if returncode \<noteq> 0 then Some (CalledProcessError returncode cmd) else None,
           w\<lparr>fs := f\<rparr>))"

text \<open>\<open>os.chdir(p)\<close> for an absolute path.\<close>

definition chdir :: "path \<Rightarrow> stmt" where
  "chdir p w = (if is_dir (fs w) p then (None, w\<lparr>cwd := p\<rparr>) else (Some (OSError p), w))"

text \<open>\<open>with open(p, "r") as f: f.read()\<close>\<close>

definition read_text :: "path \<Rightarrow> world \<Rightarrow> exn + string" where
  "read_text p w = (case fs w (cwd w @ p) of Some (File c) \<Rightarrow> Inr c | _ \<Rightarrow> Inl (OSError p))"

text \<open>\<open>with open(p, "w") as f: f.write(content)\<close>\<close>

definition write_text :: "path \<Rightarrow> string \<Rightarrow> stmt" where
  "write_text p content w =
     (let q = cwd w @ p
      in if q \<noteq> [] \<and> is_dir (fs w) (butlast q) \<and> \<not> is_dir (fs w) q
         then (None, w\<lparr>fs := (fs w)(q \<mapsto> File content)\<rparr>)
         else (Some (OSError p), w))"

text \<open>Read the file, compute the new content, write it back.\<close>

definition edit_text :: "path \<Rightarrow> (string \<Rightarrow> string) \<Rightarrow> stmt" where
  "edit_text p f w =
     (case read_text p w of Inl e \<Rightarrow> (Some e, w) | Inr content \<Rightarrow> write_text p (f content) w)"

text \<open>\<open>p.mkdir(parents=True, exist_ok=True)\<close>\<close>

definition mkdir :: "path \<Rightarrow> stmt" where
  "mkdir p w =
     (let q = cwd w @ p
      in if list_ex (is_file (fs w)) (prefixes q) then (Some (OSError p), w)
         else (None, w\<lparr>fs := (\<lambda>r. if r \<noteq> [] \<and> prefix r q then Some Dir else fs w r)\<rparr>))"

text \<open>\<open>p.unlink()\<close>\<close>

definition unlink :: "path \<Rightarrow> stmt" where
  "unlink p w =
     (let q = cwd w @ p
      in if is_file (fs w) q then (None, w\<lparr>fs := (fs w)(q := None)\<rparr>)
         else (Some (OSError p), w))"

text \<open>
  The loop of lines 251 to 255 over \<open>p.iterdir()\<close>: every file in the directory is
  unlinked and every subdirectory removed with all it holds.
\<close>

definition clear_dir :: "path \<Rightarrow> stmt" where
  "clear_dir p w =
     (let q = cwd w @ p
      in if is_dir (fs w) q
         then (None, w\<lparr>fs := (\<lambda>r. if strict_prefix q r then None else fs w r)\<rparr>)
         else (Some (OSError p), w))"

definition skip :: stmt where
  "skip w = (None, w)"

text \<open>\<open>if p.exists(): a else: b\<close>\<close>

definition if_exists :: "path \<Rightarrow> stmt \<Rightarrow> stmt \<Rightarrow> stmt" where
  "if_exists p a b w = (if exists w p then a w else b w)"

text \<open>Statements one after the other: the first exception ends the sequence.\<close>

fun seq :: "stmt list \<Rightarrow> stmt" where
  "seq [] w = (None, w)"
| "seq (s # ss) w = (case s w of (None, w') \<Rightarrow> seq ss w' | (Some e, w') \<Rightarrow> (Some e, w'))"

section \<open>The script\<close>

text \<open>Lines 111 to 156, after the notice of line 111.\<close>

definition update_env_step :: stmt where
  "update_env_step =
     if_exists (Path ''.env'')
       (seq [edit_text (Path ''.env'') update_env,
             print ''.env file updated successfully''])
       (print ''Warning: .env file not found'')"

text \<open>Lines 170 to 181.\<close>

definition update_composer_step :: stmt where
  "update_composer_step =
     if_exists (Path ''composer.json'')
       (seq [edit_text (Path ''composer.json'') update_composer,
             print ''composer.json updated successfully''])
       (print ''Warning: composer.json file not found'')"

text \<open>Lines 220 to 244.\<close>

definition update_vite_step :: stmt where
  "update_vite_step =
     if_exists (Path ''vite.config.js'')
       (seq [edit_text (Path ''vite.config.js'') update_vite,
             print ''vite.config.js updated successfully''])
       (print ''Warning: vite.config.js file not found'')"

text \<open>
  The statements of the script after the prompt, in the order of the source;
  \<open>script_dir\<close> is the absolute directory of the script file.
\<close>

definition script :: "system \<Rightarrow> path \<Rightarrow> string \<Rightarrow> stmt list" where
  "script sys script_dir project_name =
    [print ''Installing Laravel installer...'',
     run sys (Argv [''composer'', ''global'', ''require'', ''laravel/installer'']),
     print ''Laravel installer installed successfully'',
     print (''Creating Laravel project '' @ [CHR 0x27] @ project_name @ [CHR 0x27] @ ''...''),
     chdir script_dir,
     run sys (Shell (''laravel new '' @ project_name @ '' --pest --boost --npm --no-interaction'')),
     print (''Laravel project '' @ [CHR 0x27] @ project_name @ [CHR 0x27] @ '' created successfully''),
     chdir (joinpath script_dir project_name),
     print ''Installing Laravel Sail...'',
     run sys (Argv [''composer'', ''require'', ''laravel/sail'', ''--dev'']),
     print ''Laravel Sail installed successfully'',
     print ''Creating docker-compose.yml with PostgreSQL...'',
     write_text (Path ''docker-compose.yml'') docker_compose_content,
     print ''docker-compose.yml created successfully'',
     print ''Updating .env file with PostgreSQL configuration...'',
     update_env_step,
     print ''Starting Sail containers...'',
     run sys (Argv [''./vendor/bin/sail'', ''up'', ''-d'']),
     print ''Sail containers started successfully'',
     print ''Running database migrations...'',
     run sys (Argv [''./vendor/bin/sail'', ''artisan'', ''migrate'']),
     print ''Database migrations completed successfully'',
     print ''Updating composer.json scripts...'',
     update_composer_step,
     print ''Installing Inertia.js Laravel adapter...'',
     run sys (Argv [''./vendor/bin/sail'', ''composer'', ''require'', ''inertiajs/inertia-laravel'']),
     print ''Inertia.js Laravel adapter installed successfully'',
     print ''Installing Vue and dependencies...'',
     run sys (Argv [''./vendor/bin/sail'', ''npm'', ''install'', ''vue'', ''@vitejs/plugin-vue'',
                    ''@inertiajs/vue3'']),
     print ''Vue and dependencies installed successfully'',
     print ''Installing Tailwind CSS 4...'',
     run sys (Argv [''./vendor/bin/sail'', ''npm'', ''install'', ''-D'', ''tailwindcss'',
                    ''@tailwindcss/vite'']),
     print ''Tailwind CSS 4 installed successfully'',
     print ''Updating resources/css/app.css...'',
     if_exists (Path ''resources/css/app.css'')
       (seq [write_text (Path ''resources/css/app.css'') app_css_content,
             print ''resources/css/app.css updated successfully''])
       (seq [mkdir (Path ''resources/css''),
             write_text (Path ''resources/css/app.css'') app_css_content,
             print ''resources/css/app.css created successfully'']),
     print ''Updating vite.config.js...'',
     update_vite_step,
     print ''Setting up Inertia views...'',
     if_exists (Path ''resources/views'')
       (clear_dir (Path ''resources/views''))
       (mkdir (Path ''resources/views'')),
     write_text (Path ''resources/views/app.blade.php'') app_blade_content,
     print ''app.blade.php created successfully'',
     print ''Installing Inertia middleware...'',
     run sys (Argv [''./vendor/bin/sail'', ''artisan'', ''inertia:middleware'']),
     print ''Inertia middleware installed successfully'',
     print ''Updating bootstrap/app.php...'',
     if_exists (Path ''bootstrap/app.php'') (unlink (Path ''bootstrap/app.php'')) skip,
     write_text (Path ''bootstrap/app.php'') bootstrap_app_content,
     print ''bootstrap/app.php updated successfully'',
     print ''Updating resources/js/app.js...'',
     if_exists (Path ''resources/js/app.js'') (unlink (Path ''resources/js/app.js'')) skip,
     write_text (Path ''resources/js/app.js'') app_js_content,
     print ''resources/js/app.js updated successfully'',
     print ''Updating routes/web.php...'',
     if_exists (Path ''routes/web.php'') (unlink (Path ''routes/web.php'')) skip,
     write_text (Path ''routes/web.php'') web_routes_content,
     print ''routes/web.php updated successfully'',
     print ''Creating directories...'',
     mkdir (Path ''resources/js/Pages''),
     mkdir (Path ''resources/js/Components''),
     mkdir (Path ''resources/js/Layouts''),
     print ''Directories created successfully'',
     print ''Creating Welcome.vue...'',
     write_text (Path ''resources/js/Pages/Welcome.vue'') welcome_vue_content,
     print ''Welcome.vue created successfully'',
     print (''\<newline>Setup complete! Your Laravel project '' @ [CHR 0x27] @ project_name @ [CHR 0x27]
             @ '' is ready.'')]"

text \<open>The whole run: the prompt of line 11, then the statements.\<close>

definition main :: "system \<Rightarrow> path \<Rightarrow> stmt" where
  "main sys script_dir w =
     (case input ''Project name: '' w of
        (Inl e, w') \<Rightarrow> (Some e, w')
      | (Inr project_name, w') \<Rightarrow> seq (script sys script_dir project_name) w')"

section \<open>Lemmas\<close>

subsection \<open>The line update\<close>

lemma strip_lits:
  "strip ''DB_CONNECTION=pgsql\<newline>'' = ''DB_CONNECTION=pgsql''"
  "strip ''DB_HOST=pgsql\<newline>'' = ''DB_HOST=pgsql''"
  "strip ''DB_PORT=5432\<newline>'' = ''DB_PORT=5432''"
  "strip ''DB_DATABASE=laravel\<newline>'' = ''DB_DATABASE=laravel''"
  "strip ''DB_USERNAME=sail\<newline>'' = ''DB_USERNAME=sail''"
  "strip ''DB_PASSWORD=password\<newline>'' = ''DB_PASSWORD=password''"
  by (simp_all add: strip_def lstrip_def rstrip_def isspace_def)

lemma update_line_targets:
  "update_line ''DB_CONNECTION=pgsql\<newline>'' = ''DB_CONNECTION=pgsql\<newline>''"
  "update_line ''DB_HOST=pgsql\<newline>'' = ''DB_HOST=pgsql\<newline>''"
  "update_line ''DB_PORT=5432\<newline>'' = ''DB_PORT=5432\<newline>''"
  "update_line ''DB_DATABASE=laravel\<newline>'' = ''DB_DATABASE=laravel\<newline>''"
  "update_line ''DB_USERNAME=sail\<newline>'' = ''DB_USERNAME=sail\<newline>''"
  "update_line ''DB_PASSWORD=password\<newline>'' = ''DB_PASSWORD=password\<newline>''"
  by (simp_all add: update_line_def strip_lits startswith_def)

lemma update_line_cases:
  "update_line l = l \<or> update_line l \<in> {''DB_CONNECTION=pgsql\<newline>'', ''DB_HOST=pgsql\<newline>'',
     ''DB_PORT=5432\<newline>'', ''DB_DATABASE=laravel\<newline>'', ''DB_USERNAME=sail\<newline>'',
     ''DB_PASSWORD=password\<newline>''}"
  by (simp add: update_line_def Let_def)

lemma update_line_idem: "update_line (update_line l) = update_line l"
  using update_line_cases [of l] update_line_targets by auto

subsection \<open>Reading and writing lines\<close>

lemma lines_ok_Cons:
  "lines_ok (l # ls) = (is_line l \<and> (ls \<noteq> [] \<longrightarrow> last l = CHR ''\<newline>'' \<and> lines_ok ls))"
  by (cases ls) auto

lemma readlines_lines_ok: "lines_ok (readlines s)"
proof (induction s)
  case Nil
  show ?case by simp
next
  case (Cons c cs)
  show ?case
  proof (cases "c = CHR ''\<newline>''")
    case True
    with Cons show ?thesis by (simp add: lines_ok_Cons is_line_def)
  next
    case False
    with Cons show ?thesis
      by (cases "readlines cs") (auto simp: lines_ok_Cons is_line_def)
  qed
qed

lemma concat_readlines: "concat (readlines s) = s"
  by (induction s) (auto split: list.splits)

lemma readlines_terminated:
  "CHR ''\<newline>'' \<notin> set b \<Longrightarrow> readlines (b @ CHR ''\<newline>'' # s) = (b @ [CHR ''\<newline>'']) # readlines s"
  by (induction b) auto

lemma readlines_Nil_iff: "readlines s = [] \<longleftrightarrow> s = []"
  by (cases s) (auto split: list.splits)

lemma readlines_unterminated:
  "CHR ''\<newline>'' \<notin> set b \<Longrightarrow> b \<noteq> [] \<Longrightarrow> readlines b = [b]"
proof (induction b)
  case Nil
  then show ?case by simp
next
  case (Cons c b)
  show ?case
  proof (cases "b = []")
    case True
    with Cons.prems show ?thesis by simp
  next
    case False
    with Cons have "readlines b = [b]" by simp
    with Cons.prems show ?thesis by auto
  qed
qed

lemma readlines_line:
  assumes "is_line l"
  shows "readlines l = [l]"
proof (cases "last l = CHR ''\<newline>''")
  case True
  with assms have "l = butlast l @ [CHR ''\<newline>'']"
    by (metis append_butlast_last_id is_line_def)
  moreover have "readlines (butlast l @ CHR ''\<newline>'' # []) = [butlast l @ [CHR ''\<newline>'']]"
    using assms readlines_terminated [of "butlast l" "[]"] by (simp add: is_line_def)
  ultimately show ?thesis by simp
next
  case False
  with assms have "CHR ''\<newline>'' \<notin> set l"
    by (metis append_butlast_last_id is_line_def rotate1.simps(2) set_ConsD set_rotate1)
  with assms show ?thesis by (simp add: readlines_unterminated is_line_def)
qed

lemma readlines_concat: "lines_ok ls \<Longrightarrow> readlines (concat ls) = ls"
proof (induction ls rule: lines_ok.induct)
  case 1
  show ?case by simp
next
  case (2 l)
  then show ?case by (simp add: readlines_line)
next
  case (3 l l' ls)
  then have l: "l = butlast l @ [CHR ''\<newline>'']" and nl: "CHR ''\<newline>'' \<notin> set (butlast l)"
    by (auto simp: is_line_def) (metis append_butlast_last_id)
  have "readlines (concat (l # l' # ls)) = readlines (butlast l @ CHR ''\<newline>'' # concat (l' # ls))"
    using l by (metis append.assoc append_Cons append_Nil concat.simps(2))
  also have "\<dots> = (butlast l @ [CHR ''\<newline>'']) # readlines (concat (l' # ls))"
    using nl by (rule readlines_terminated)
  finally show ?case using 3 l by simp
qed

lemma update_line_is_line: "is_line l \<Longrightarrow> is_line (update_line l)"
  using update_line_cases [of l] by (auto simp: is_line_def)

lemma update_line_last: "last l = CHR ''\<newline>'' \<Longrightarrow> last (update_line l) = CHR ''\<newline>''"
  using update_line_cases [of l] by auto

lemma updated_lines_ok: "lines_ok ls \<Longrightarrow> lines_ok (updated_lines ls)"
  unfolding updated_lines_def
  by (induction ls rule: lines_ok.induct) (auto simp: update_line_is_line update_line_last)

lemma readlines_update_env: "readlines (update_env content) = updated_lines (readlines content)"
  by (simp add: update_env_def writelines_def readlines_concat updated_lines_ok readlines_lines_ok)

lemma update_env_idem: "update_env (update_env content) = update_env content"
proof -
  have "update_env (update_env content) = writelines (updated_lines (updated_lines (readlines content)))"
    unfolding update_env_def [of "update_env content"] readlines_update_env ..
  also have "updated_lines (updated_lines (readlines content)) = updated_lines (readlines content)"
    by (simp add: updated_lines_def update_line_idem)
  finally show ?thesis by (simp add: update_env_def)
qed

lemma update_env_count: "length (readlines (update_env content)) = length (readlines content)"
  by (simp add: readlines_update_env updated_lines_def)

subsection \<open>Replacing is joining the pieces\<close>

lemma segments_nonempty: "segments s old \<noteq> []"
  by (cases s) (auto split: list.splits)

lemma join_Cons: "ys \<noteq> [] \<Longrightarrow> join sep (x # ys) = x @ sep @ join sep ys"
  by (cases ys) auto

lemma join_Cons_Cons: "join sep ((c # x) # xs) = c # join sep (x # xs)"
  by (cases xs) auto

lemma replace_join: "old \<noteq> [] \<Longrightarrow> replace s old new = join new (segments s old)"
proof (induction s old new rule: replace.induct)
  case (1 old new)
  then show ?case by simp
next
  case (2 c cs old new)
  show ?case
  proof (cases "prefix old (c # cs)")
    case True
    with 2 show ?thesis by (simp add: join_Cons segments_nonempty)
  next
    case False
    obtain seg segs where "segments cs old = seg # segs"
      using segments_nonempty [of cs old] by (cases "segments cs old") auto
    with False 2 show ?thesis by (simp add: join_Cons_Cons)
  qed
qed

lemma join_segments: "join old (segments s old) = s"
proof (induction s old rule: segments.induct)
  case (1 old)
  show ?case by simp
next
  case (2 c cs old)
  show ?case
  proof (cases "old \<noteq> [] \<and> prefix old (c # cs)")
    case True
    then have "c # cs = old @ drop (length old) (c # cs)"
      by (metis append_eq_conv_conj prefix_def)
    with True 2 show ?thesis by (simp add: join_Cons segments_nonempty)
  next
    case False
    obtain seg segs where "segments cs old = seg # segs"
      using segments_nonempty [of cs old] by (cases "segments cs old") auto
    with False 2 show ?thesis by (auto simp: join_Cons_Cons)
  qed
qed

subsection \<open>Occurrences\<close>

lemma contains_sublist: "contains s sub \<longleftrightarrow> sublist sub s"
  by (induction s) (auto simp: sublist_Cons_right)

lemma contains_Nil [simp]: "contains s []"
  by (simp add: contains_sublist)

lemma contains_trans: "contains s b \<Longrightarrow> contains b a \<Longrightarrow> contains s a"
  unfolding contains_sublist by (rule sublist_order.order.trans)

lemma contains_append: "contains t m \<Longrightarrow> contains (a @ t @ b) m"
  unfolding contains_sublist by (metis sublist_appendI sublist_order.order.trans)

lemma contains_appendR: "contains t m \<Longrightarrow> contains (a @ t) m"
  using contains_append [of t m a "[]"] by simp

lemma contains_drop: "contains (drop n s) m \<Longrightarrow> contains s m"
  by (metis append_take_drop_id contains_appendR)

lemma contains_self: "contains s s"
  by (simp add: contains_sublist)

lemma prefix_contains: "prefix m s \<Longrightarrow> contains s m"
  by (simp add: contains_sublist prefix_imp_sublist)

subsection \<open>Occurrences before and after a replacement\<close>

lemma replace_absent: "\<not> contains s old \<Longrightarrow> replace s old new = s"
proof (induction s)
  case Nil
  then show ?case by auto
next
  case (Cons c cs)
  then have "old \<noteq> []" by auto
  with Cons show ?case by auto
qed

lemma replace_contains_new:
  "old \<noteq> [] \<Longrightarrow> contains s old \<Longrightarrow> contains (replace s old new) new"
proof (induction s old new rule: replace.induct)
  case (1 old new)
  then show ?case by simp
next
  case (2 c cs old new)
  show ?case
  proof (cases "prefix old (c # cs)")
    case True
    with 2 show ?thesis
      using contains_append [of new new "[]"] by (simp add: contains_self prefix_contains)
  next
    case False
    with 2 have "contains (replace cs old new) new" by simp
    with False 2 show ?thesis by simp
  qed
qed

lemma prefix_append_cases: "prefix m (a @ t) \<Longrightarrow> prefix m a \<or> prefix a m"
  by (auto simp: prefix_append)

lemma no_start_append:
  "no_start m a \<Longrightarrow> contains (a @ t) m \<Longrightarrow> contains t m"
proof (induction a)
  case Nil
  then show ?case by simp
next
  case (Cons c a)
  from Cons.prems(1) have "\<not> prefix m ((c # a) @ t)"
    using prefix_append_cases [of m "c # a" t] by auto
  with Cons show ?case by simp
qed

lemma no_start_prefix_replace:
  "old \<noteq> [] \<Longrightarrow> no_start new m \<Longrightarrow> prefix m (replace s old new) \<Longrightarrow> prefix m s"
proof (induction s old new arbitrary: m rule: replace.induct)
  case (1 old new)
  then show ?case by simp
next
  case (2 c cs old new)
  show ?case
  proof (cases m)
    case Nil
    then show ?thesis by simp
  next
    case (Cons d m')
    show ?thesis
    proof (cases "prefix old (c # cs)")
      case True
      with 2 have "prefix m (new @ replace (drop (length old) (c # cs)) old new)" by simp
      then have "prefix m new \<or> prefix new m"
        by (rule prefix_append_cases)
      with 2(5) Cons show ?thesis by simp
    next
      case False
      with 2 Cons have "d = c" and "prefix m' (replace cs old new)" and "no_start new m'"
        by auto
      with 2(3) [OF 2(4) False 2(4)] Cons show ?thesis by simp
    qed
  qed
qed

lemma replace_Cons_match:
  "old \<noteq> [] \<Longrightarrow> prefix old (c # cs) \<Longrightarrow>
   replace (c # cs) old new = new @ replace (drop (length old) (c # cs)) old new"
  by simp

lemma replace_Cons_skip:
  "old \<noteq> [] \<Longrightarrow> \<not> prefix old (c # cs) \<Longrightarrow>
   replace (c # cs) old new = c # replace cs old new"
  by simp

lemma replace_Nil: "old \<noteq> [] \<Longrightarrow> replace [] old new = []"
  by simp

lemma replace_removes:
  assumes old: "old \<noteq> []" and n1: "no_start new (tl old)" and n2: "no_start old new"
  shows "\<not> contains (replace s old new) old"
proof (induction s rule: length_induct)
  case (1 s)
  show ?case
  proof (cases s)
    case Nil
    with old show ?thesis by simp
  next
    case (Cons c cs)
    show ?thesis
    proof (cases "prefix old (c # cs)")
      case True
      have "length (drop (length old) (c # cs)) < length s"
        using old Cons by simp
      with 1 have "\<not> contains (replace (drop (length old) (c # cs)) old new) old"
        by blast
      then have "\<not> contains (new @ replace (drop (length old) (c # cs)) old new) old"
        using no_start_append [OF n2] by blast
      then show ?thesis
        unfolding Cons replace_Cons_match [OF old True] .
    next
      case False
      have "length cs < length s" using Cons by simp
      with 1 have ih: "\<not> contains (replace cs old new) old" by blast
      have "\<not> prefix old (c # replace cs old new)"
      proof
        assume p: "prefix old (c # replace cs old new)"
        with old obtain o' where o: "old = c # o'" and "prefix o' (replace cs old new)"
          by (cases old) auto
        moreover from n1 o have "no_start new o'" by simp
        ultimately have "prefix o' cs"
          using no_start_prefix_replace [OF old] by blast
        with o False show False by simp
      qed
      with ih have "\<not> contains (c # replace cs old new) old" by simp
      then show ?thesis
        unfolding Cons replace_Cons_skip [OF old False] .
    qed
  qed
qed

lemma replace_creates_not:
  assumes old: "old \<noteq> []" and n1: "no_start new (tl m)" and n2: "no_start m new"
  shows "\<not> contains s m \<Longrightarrow> \<not> contains (replace s old new) m"
proof (induction s rule: length_induct)
  case (1 s)
  from 1(2) have m: "m \<noteq> []" by auto
  show ?case
  proof (cases s)
    case Nil
    with old m show ?thesis by simp
  next
    case (Cons c cs)
    show ?thesis
    proof (cases "prefix old (c # cs)")
      case True
      have "length (drop (length old) (c # cs)) < length s"
        using old Cons by simp
      moreover from 1(2) Cons have "\<not> contains (drop (length old) (c # cs)) m"
        using contains_drop by blast
      ultimately have "\<not> contains (replace (drop (length old) (c # cs)) old new) m"
        using 1(1) by blast
      then have "\<not> contains (new @ replace (drop (length old) (c # cs)) old new) m"
        using no_start_append [OF n2] by blast
      then show ?thesis
        unfolding Cons replace_Cons_match [OF old True] .
    next
      case False
      from 1(2) Cons have nc: "\<not> contains cs m" and np: "\<not> prefix m (c # cs)" by auto
      have "length cs < length s" using Cons by simp
      with 1(1) nc have ih: "\<not> contains (replace cs old new) m" by blast
      have "\<not> prefix m (c # replace cs old new)"
      proof
        assume p: "prefix m (c # replace cs old new)"
        with m obtain m' where o: "m = c # m'" and "prefix m' (replace cs old new)"
          by (cases m) auto
        moreover from n1 o have "no_start new m'" by simp
        ultimately have "prefix m' cs"
          using no_start_prefix_replace [OF old] by blast
        with o np show False by simp
      qed
      with ih have "\<not> contains (c # replace cs old new) m" by simp
      then show ?thesis
        unfolding Cons replace_Cons_skip [OF old False] .
    qed
  qed
qed

lemma no_start_prefix_kept:
  "old \<noteq> [] \<Longrightarrow> no_start old m \<Longrightarrow> prefix m s \<Longrightarrow> prefix m (replace s old new)"
proof (induction m arbitrary: s)
  case Nil
  then show ?case by simp
next
  case (Cons c m)
  then obtain s' where s: "s = c # s'" and p: "prefix m s'"
    by (cases s) auto
  have np: "\<not> prefix old (c # s')"
  proof
    assume "prefix old (c # s')"
    moreover from p have "prefix (c # m) (c # s')" by simp
    ultimately have "prefix old (c # m) \<or> prefix (c # m) old"
      using prefix_same_cases by blast
    with Cons.prems(2) show False by simp
  qed
  from Cons.prems(2) have "no_start old m" by simp
  with Cons.IH [OF Cons.prems(1) _ p] have "prefix m (replace s' old new)" by blast
  then show ?case
    unfolding s replace_Cons_skip [OF Cons.prems(1) np] by simp
qed

lemma replace_keeps:
  assumes old: "old \<noteq> []" and n1: "no_start old (tl m)" and n2: "no_start m old"
  shows "contains s m \<Longrightarrow> contains (replace s old (ins @ old)) m"
proof (induction s rule: length_induct)
  case (1 s)
  show ?case
  proof (cases s)
    case Nil
    with 1(2) have "m = []" by simp
    then show ?thesis by simp
  next
    case (Cons c cs)
    show ?thesis
    proof (cases "prefix old (c # cs)")
      case True
      then have eq: "c # cs = old @ drop (length old) (c # cs)"
        by (metis append_eq_conv_conj prefix_def)
      from 1(2) Cons have "contains (old @ drop (length old) (c # cs)) m"
        using eq by simp
      then have "contains (drop (length old) (c # cs)) m"
        by (rule no_start_append [OF n2])
      moreover have "length (drop (length old) (c # cs)) < length s"
        using old Cons by simp
      ultimately have "contains (replace (drop (length old) (c # cs)) old (ins @ old)) m"
        using 1(1) by blast
      then have "contains ((ins @ old) @ replace (drop (length old) (c # cs)) old (ins @ old)) m"
        by (rule contains_appendR)
      then show ?thesis
        unfolding Cons replace_Cons_match [OF old True] .
    next
      case False
      from 1(2) Cons consider (here) "prefix m (c # cs)" | (later) "contains cs m" by auto
      then have "contains (c # replace cs old (ins @ old)) m"
      proof cases
        case here
        show ?thesis
        proof (cases m)
          case Nil
          then show ?thesis by simp
        next
          case (Cons d m')
          with here have d: "d = c" and "prefix m' cs" by auto
          moreover from n1 Cons have "no_start old m'" by simp
          ultimately have "prefix m' (replace cs old (ins @ old))"
            using no_start_prefix_kept [OF old] by blast
          with Cons d have "prefix m (c # replace cs old (ins @ old))" by simp
          then show ?thesis by (rule prefix_contains)
        qed
      next
        case later
        have "length cs < length s" using Cons by simp
        with 1(1) later have "contains (replace cs old (ins @ old)) m" by blast
        then show ?thesis by simp
      qed
      then show ?thesis
        unfolding Cons replace_Cons_skip [OF old False] .
    qed
  qed
qed

subsection \<open>The two substring edits\<close>

lemma composer_no_start:
  "no_start ''./vendor/bin/sail artisan'' (tl ''php artisan'')"
  "no_start ''php artisan'' ''./vendor/bin/sail artisan''"
  by simp_all

lemma update_composer_removes: "\<not> contains (update_composer c) ''php artisan''"
  unfolding update_composer_def
  by (rule replace_removes) (simp_all only: composer_no_start, simp)

lemma update_composer_idem: "update_composer (update_composer c) = update_composer c"
  using update_composer_removes [of c] replace_absent
  unfolding update_composer_def by blast

lemma vite_facts:
  "laravel_vue_import = laravel_import @ ''\<newline>import vue from '@vitejs/plugin-vue';''"
  "vue_laravel_call = ''        vue({\<newline>            template: {\<newline>                transformAssetUrls: {\<newline>                    base: null,\<newline>                    includeAbsolute: false,\<newline>                },\<newline>            },\<newline>        }),\<newline>'' @ laravel_call"
  "laravel_import \<noteq> []" "laravel_call \<noteq> []"
  by (simp_all add: laravel_vue_import_def laravel_import_def vue_laravel_call_def laravel_call_def)

lemma vite_contains:
  "contains laravel_vue_import vue_import"
  "contains vue_laravel_call ''vue({''"
  by (simp_all add: laravel_vue_import_def vue_import_def vue_laravel_call_def)

lemma vite_no_start1:
  "no_start laravel_call (tl vue_import)"
  "no_start vue_import laravel_call"
  by (simp_all add: laravel_call_def vue_import_def)

lemma vite_no_start2:
  "no_start vue_laravel_call (tl vue_import)"
  "no_start vue_import vue_laravel_call"
  by (simp_all add: vue_laravel_call_def vue_import_def)

lemma vite_no_start3:
  "no_start vue_laravel_call (tl laravel_import)"
  "no_start laravel_import vue_laravel_call"
  by (simp_all add: vue_laravel_call_def laravel_import_def)

lemma update_vite_idem: "update_vite (update_vite c) = update_vite c"
proof (cases "contains c vue_import")
  case True
  then show ?thesis by (simp add: update_vite_def)
next
  case nomark: False
  define y where "y = replace c laravel_import laravel_vue_import"
  show ?thesis
  proof (cases "contains c laravel_import")
    case True
    then have "contains y laravel_vue_import"
      unfolding y_def by (rule replace_contains_new [OF vite_facts(3)])
    then have ym: "contains y vue_import"
      using vite_contains(1) by (rule contains_trans)
    have "contains (replace y laravel_call vue_laravel_call) vue_import"
      unfolding vite_facts(2)
      by (rule replace_keeps [OF vite_facts(4) vite_no_start1 ym])
    with ym nomark have "contains (update_vite c) vue_import"
      by (simp add: update_vite_def Let_def y_def)
    then show ?thesis by (simp add: update_vite_def [of "update_vite c"])
  next
    case noanchor: False
    then have y: "y = c" unfolding y_def by (rule replace_absent)
    show ?thesis
    proof (cases "contains c ''vue({''")
      case True
      with nomark y have "update_vite c = c"
        by (simp add: update_vite_def Let_def y_def)
      then show ?thesis by simp
    next
      case noblock: False
      define z where "z = replace c laravel_call vue_laravel_call"
      from nomark noblock y have uz: "update_vite c = z"
        by (simp add: update_vite_def Let_def y_def z_def)
      show ?thesis
      proof (cases "contains c laravel_call")
        case False
        then have "z = c" unfolding z_def by (rule replace_absent)
        with uz show ?thesis by simp
      next
        case True
        then have "contains z vue_laravel_call"
          unfolding z_def by (rule replace_contains_new [OF vite_facts(4)])
        then have zb: "contains z ''vue({''"
          using vite_contains(2) by (rule contains_trans)
        have zm: "\<not> contains z vue_import"
          unfolding z_def by (rule replace_creates_not [OF vite_facts(4) vite_no_start2 nomark])
        have "\<not> contains z laravel_import"
          unfolding z_def by (rule replace_creates_not [OF vite_facts(4) vite_no_start3 noanchor])
        then have "replace z laravel_import laravel_vue_import = z"
          by (rule replace_absent)
        with zb zm have "update_vite z = z"
          by (simp add: update_vite_def Let_def)
        with uz show ?thesis by simp
      qed
    qed
  qed
qed

lemma update_composer_segments:
  "update_composer c = join ''./vendor/bin/sail artisan'' (segments c ''php artisan'')"
  unfolding update_composer_def by (rule replace_join) simp

subsection \<open>Counting lines\<close>

lemma readlines_length:
  "length (readlines s) =
     count_list s CHR ''\<newline>'' + (if s = [] \<or> last s = CHR ''\<newline>'' then 0 else 1)"
proof (induction s)
  case Nil
  show ?case by simp
next
  case (Cons c cs)
  show ?case
  proof (cases "cs = []")
    case True
    then show ?thesis by simp
  next
    case False
    then obtain l ls where "readlines cs = l # ls"
      using readlines_Nil_iff [of cs] by (cases "readlines cs") auto
    with Cons False show ?thesis by simp
  qed
qed

lemma count_list_join:
  "count_list (join sep segs) x + count_list sep x =
     sum_list (map (\<lambda>seg. count_list seg x) segs) + length segs * count_list sep x" if "segs \<noteq> []"
  using that
proof (induction sep segs rule: join.induct)
  case (1 sep)
  then show ?case by simp
next
  case (2 sep x)
  then show ?case by simp
next
  case (3 sep x y ys)
  then show ?case by simp
qed

lemma count_list_replace:
  assumes "old \<noteq> []"
  shows "count_list (replace s old new) x + count_occ s old * count_list old x =
         count_list s x + count_occ s old * count_list new x"
proof -
  let ?segs = "segments s old"
  let ?S = "sum_list (map (\<lambda>seg. count_list seg x) ?segs)"
  have ne: "?segs \<noteq> []" by (rule segments_nonempty)
  then have len: "length ?segs = Suc (count_occ s old)"
    by (cases ?segs) (simp_all add: count_occ_def)
  have a: "count_list (replace s old new) x + count_list new x = ?S + length ?segs * count_list new x"
    using count_list_join [OF ne, of new x] replace_join [OF assms, of s new] by simp
  have b: "count_list s x + count_list old x = ?S + length ?segs * count_list old x"
    using count_list_join [OF ne, of old x] join_segments [of old s] by simp
  from a b len show ?thesis by (simp add: algebra_simps)
qed

lemma replace_Nil_iff:
  "old \<noteq> [] \<Longrightarrow> new \<noteq> [] \<Longrightarrow> replace s old new = [] \<longleftrightarrow> s = []"
  by (cases s) auto

lemma replace_last:
  assumes old: "old \<noteq> []" and new: "new \<noteq> []" and l: "last new = last old"
  shows "s \<noteq> [] \<Longrightarrow> last (replace s old new) = last s"
proof (induction s rule: length_induct)
  case (1 s)
  then obtain c cs where s: "s = c # cs" by (cases s) auto
  show ?case
  proof (cases "prefix old (c # cs)")
    case True
    then have eq: "c # cs = old @ drop (length old) (c # cs)"
      by (metis append_eq_conv_conj prefix_def)
    let ?t = "drop (length old) (c # cs)"
    show ?thesis
    proof (cases "?t = []")
      case True
      with eq have "last (c # cs) = last old" by simp
      moreover from True old have "replace ?t old new = []" by simp
      ultimately show ?thesis
        unfolding s replace_Cons_match [OF old \<open>prefix old (c # cs)\<close>] using l by simp
    next
      case False
      have "length ?t < length s" using old s by simp
      with 1(1) False have "last (replace ?t old new) = last ?t" by blast
      moreover have "replace ?t old new \<noteq> []"
        using False replace_Nil_iff [OF old new] by blast
      moreover have "last (c # cs) = last ?t"
        using False eq by (metis last_appendR)
      ultimately show ?thesis
        unfolding s replace_Cons_match [OF old True] by simp
    qed
  next
    case False
    show ?thesis
    proof (cases "cs = []")
      case True
      with old show ?thesis
        unfolding s replace_Cons_skip [OF old False] by simp
    next
      case ne: False
      have "length cs < length s" using s by simp
      with 1(1) ne have "last (replace cs old new) = last cs" by blast
      moreover have "replace cs old new \<noteq> []"
        using ne replace_Nil_iff [OF old new] by blast
      ultimately show ?thesis
        unfolding s replace_Cons_skip [OF old False] using ne by simp
    qed
  qed
qed

lemma readlines_replace:
  assumes old: "old \<noteq> []" and new: "new \<noteq> []" and l: "last new = last old"
  shows "length (readlines (replace s old new)) + count_occ s old * count_list old CHR ''\<newline>'' =
         length (readlines s) + count_occ s old * count_list new CHR ''\<newline>''"
proof (cases "s = []")
  case True
  with old show ?thesis by (simp add: count_occ_def)
next
  case False
  then have "replace s old new \<noteq> []" using replace_Nil_iff [OF old new] by blast
  moreover have "last (replace s old new) = last s" using False by (rule replace_last [OF old new l])
  ultimately show ?thesis
    using count_list_replace [OF old, of s new "CHR ''\<newline>''"] False
    by (simp add: readlines_length)
qed

subsection \<open>Commented lines and values\<close>

lemma hash_not_conn: "startswith s ''#'' \<Longrightarrow> \<not> startswith s ''DB_CONNECTION''"
  by (cases s) (auto simp: startswith_def)

lemma update_line_commented:
  assumes "startswith (strip line) ''#''"
  shows "update_line line =
     (if contains (strip line) ''DB_HOST'' then ''DB_HOST=pgsql\<newline>''
      else if contains (strip line) ''DB_PORT'' then ''DB_PORT=5432\<newline>''
      else if contains (strip line) ''DB_DATABASE'' then ''DB_DATABASE=laravel\<newline>''
      else if contains (strip line) ''DB_USERNAME'' then ''DB_USERNAME=sail\<newline>''
      else if contains (strip line) ''DB_PASSWORD'' then ''DB_PASSWORD=password\<newline>''
      else line)"
proof -
  from assms obtain r where r: "strip line = CHR ''#'' # r"
    by (cases "strip line") (auto simp: startswith_def)
  show ?thesis
    unfolding update_line_def Let_def r by (simp add: startswith_def)
qed

lemma env_value_contains:
  assumes "env_value s = v" and "v \<noteq> []"
  shows "contains s (CHR ''='' # v)"
proof -
  let ?d = "dropWhile (\<lambda>c. c \<noteq> CHR ''='') s"
  from assms have d: "?d \<noteq> []" unfolding env_value_def by (metis drop_Nil list.distinct(1))
  then have "hd ?d = CHR ''=''" using hd_dropWhile [of "\<lambda>c. c \<noteq> CHR ''=''" s] by simp
  with d assms have "?d = CHR ''='' # v"
    unfolding env_value_def by (cases ?d) simp_all
  then have "s = takeWhile (\<lambda>c. c \<noteq> CHR ''='') s @ CHR ''='' # v"
    by (metis takeWhile_dropWhile_id)
  then show ?thesis
    by (metis contains_appendR contains_self)
qed

lemma contains_skip:
  "m \<noteq> [] \<Longrightarrow> hd m \<notin> set k \<Longrightarrow> contains (k @ t) m \<Longrightarrow> contains t m"
  by (induction k) (auto simp: prefix_Cons)

lemma env_value_pgsql:
  assumes "env_value s = ''pgsql''"
  shows "\<not> contains s ''=mysql''" and "\<not> contains s ''=sqlite''"
proof -
  let ?k = "takeWhile (\<lambda>c. c \<noteq> CHR ''='') s"
  let ?d = "dropWhile (\<lambda>c. c \<noteq> CHR ''='') s"
  from assms have d: "?d \<noteq> []" unfolding env_value_def by (metis drop_Nil list.distinct(1))
  then have "hd ?d = CHR ''=''" using hd_dropWhile [of "\<lambda>c. c \<noteq> CHR ''=''" s] by simp
  with d assms have "?d = ''=pgsql''"
    unfolding env_value_def by (cases ?d) simp_all
  then have s: "s = ?k @ ''=pgsql''" by (metis takeWhile_dropWhile_id)
  have k: "CHR ''='' \<notin> set ?k" by (auto dest: set_takeWhileD)
  have "\<not> contains (?k @ ''=pgsql'') ''=mysql''"
    using contains_skip [of "''=mysql''" ?k "''=pgsql''"] k by auto
  moreover have "\<not> contains (?k @ ''=pgsql'') ''=sqlite''"
    using contains_skip [of "''=sqlite''" ?k "''=pgsql''"] k by auto
  ultimately show "\<not> contains s ''=mysql''" and "\<not> contains s ''=sqlite''"
    using s by metis+
qed

lemma update_line_never_commented:
  "\<not> (startswith (strip (update_line l)) ''#'' \<and> contains (strip (update_line l)) key \<and>
      key \<in> {''DB_HOST'', ''DB_PORT'', ''DB_DATABASE'', ''DB_USERNAME'', ''DB_PASSWORD''})"
proof
  assume a: "startswith (strip (update_line l)) ''#'' \<and> contains (strip (update_line l)) key \<and>
      key \<in> {''DB_HOST'', ''DB_PORT'', ''DB_DATABASE'', ''DB_USERNAME'', ''DB_PASSWORD''}"
  have lit: "update_line l \<noteq> l \<Longrightarrow> \<not> startswith (strip (update_line l)) ''#''"
    using update_line_cases [of l] by (auto simp: strip_lits startswith_def)
  with a have same: "update_line l = l" by blast
  with a have "startswith (strip l) ''#''" by simp
  from update_line_commented [OF this] same a
  have "\<not> startswith (strip l) ''#''"
    by (auto simp: strip_lits startswith_def split: if_splits)
  with a same show False by simp
qed

subsection \<open>The pieces hold no occurrence\<close>

lemma hd_segments_prefix: "prefix (hd (segments s old)) s"
proof (induction s old rule: segments.induct)
  case (1 old)
  show ?case by simp
next
  case (2 c cs old)
  show ?case
  proof (cases "old \<noteq> [] \<and> prefix old (c # cs)")
    case True
    then show ?thesis by simp
  next
    case False
    obtain seg segs where e: "segments cs old = seg # segs"
      using segments_nonempty [of cs old] by (cases "segments cs old") auto
    with 2(2) False have "prefix seg cs" by auto
    with False e show ?thesis by auto
  qed
qed

lemma segments_free:
  "old \<noteq> [] \<Longrightarrow> seg \<in> set (segments s old) \<Longrightarrow> \<not> contains seg old"
proof (induction s old arbitrary: seg rule: segments.induct)
  case (1 old)
  then show ?case by simp
next
  case (2 c cs old)
  show ?case
  proof (cases "prefix old (c # cs)")
    case True
    with 2(3,4) have "seg = [] \<or> seg \<in> set (segments (drop (length old) (c # cs)) old)"
      by simp
    then show ?thesis
    proof
      assume "seg = []"
      with 2(3) show ?thesis by simp
    next
      assume "seg \<in> set (segments (drop (length old) (c # cs)) old)"
      with 2(1) [OF _ 2(3)] True 2(3) show ?thesis by blast
    qed
  next
    case False
    obtain seg0 segs where e: "segments cs old = seg0 # segs"
      using segments_nonempty [of cs old] by (cases "segments cs old") auto
    have ih: "\<not> contains x old" if "x \<in> set (seg0 # segs)" for x
      using 2(2) [OF _ 2(3)] False that e by auto
    from 2(4) False e have "seg = c # seg0 \<or> seg \<in> set segs" by auto
    then show ?thesis
    proof
      assume s: "seg = c # seg0"
      have "prefix seg0 cs" using hd_segments_prefix [of cs old] e by simp
      then have "prefix (c # seg0) (c # cs)" by simp
      have "\<not> prefix old (c # seg0)"
      proof
        assume "prefix old (c # seg0)"
        with \<open>prefix (c # seg0) (c # cs)\<close> have "prefix old (c # cs)"
          unfolding prefix_def by (metis append.assoc)
        with False show False by simp
      qed
      with ih [of seg0] s show ?thesis by simp
    next
      assume "seg \<in> set segs"
      with ih show ?thesis by simp
    qed
  qed
qed

lemma line_count_update_vite:
  "line_count (update_vite c) =
     line_count c +
     (if contains c vue_import then 0
      else count_occ c laravel_import +
           (if contains (replace c laravel_import laravel_vue_import) ''vue({'' then 0
            else 8 * count_occ (replace c laravel_import laravel_vue_import) laravel_call))"
proof -
  have a: "line_count (replace s laravel_import laravel_vue_import) =
           line_count s + count_occ s laravel_import" for s
    using readlines_replace [of laravel_import laravel_vue_import s]
    by (simp add: line_count_def laravel_import_def laravel_vue_import_def)
  have b: "line_count (replace s laravel_call vue_laravel_call) =
           line_count s + 8 * count_occ s laravel_call" for s
    using readlines_replace [of laravel_call vue_laravel_call s]
    by (simp add: line_count_def laravel_call_def vue_laravel_call_def)
  show ?thesis
    by (simp add: update_vite_def Let_def a b)
qed

lemma line_count_update_composer: "line_count (update_composer c) = line_count c"
  using readlines_replace [of "''php artisan''" "''./vendor/bin/sail artisan''" c]
  by (simp add: line_count_def update_composer_def)

subsection \<open>Sequences of statements\<close>

lemma seq_append:
  "seq (a @ b) w = (case seq a w of (None, w') \<Rightarrow> seq b w' | (Some e, w') \<Rightarrow> (Some e, w'))"
  by (induction a arbitrary: w) (auto split: prod.splits option.splits)

lemma seq_abort:
  "seq pre w = (None, w1) \<Longrightarrow> s w1 = (Some e, w2) \<Longrightarrow> seq (pre @ s # post) w = (Some e, w2)"
  by (simp add: seq_append)

lemma seq_continue:
  "seq pre w = (None, w1) \<Longrightarrow> s w1 = (None, w2) \<Longrightarrow> seq (pre @ s # post) w = seq post w2"
  by (simp add: seq_append)

lemma run_raises:
  "run sys cmd w1 = (Some e, w2) \<Longrightarrow>
     fst (sys cmd w1) \<noteq> Some 0 \<and> w2 = w1\<lparr>fs := snd (sys cmd w1)\<rparr> \<and>
     e = (case fst (sys cmd w1) of None \<Rightarrow> ExecError cmd | Some rc \<Rightarrow> CalledProcessError rc cmd)"
  by (auto simp: run_def split: prod.splits option.splits if_splits)

lemma run_fails:
  "fst (sys cmd w1) \<noteq> Some 0 \<Longrightarrow> fst (run sys cmd w1) \<noteq> None"
  by (auto simp: run_def split: prod.splits option.splits)

lemma missing_target:
  "\<not> exists w p \<Longrightarrow> if_exists p a (print msg) w = (None, w\<lparr>stdout := stdout w @ [msg @ ''\<newline>'']\<rparr>)"
  by (simp add: if_exists_def print_def)

lemma write_text_fails:
  "\<not> is_dir (fs w) (butlast (cwd w @ p)) \<Longrightarrow> write_text p content w = (Some (OSError p), w)"
  by (simp add: write_text_def Let_def)

section \<open>The claims about the .env update\<close>

text \<open>
  C1, the claim as stated fails: the value \<open>mysql2\<close> is neither \<open>mysql\<close> nor \<open>sqlite\<close>, yet
  the line is rewritten.
\<close>

theorem C1_counterexample:
  "startswith (strip ''DB_CONNECTION=mysql2\<newline>'') ''DB_CONNECTION'' \<and>
   env_value (strip ''DB_CONNECTION=mysql2\<newline>'') = ''mysql2'' \<and>
   ''mysql2'' \<noteq> ''mysql'' \<and> ''mysql2'' \<noteq> ''sqlite'' \<and>
   update_line ''DB_CONNECTION=mysql2\<newline>'' = ''DB_CONNECTION=pgsql\<newline>'' \<and>
   update_line ''DB_CONNECTION=mysql2\<newline>'' \<noteq> ''DB_CONNECTION=mysql2\<newline>''"
  by (simp add: update_line_def strip_def lstrip_def rstrip_def isspace_def startswith_def
      env_value_def)

text \<open>
  C1 (as amended). A line whose trimmed content starts with \<open>DB_CONNECTION\<close> is rewritten
  to exactly \<open>DB_CONNECTION=pgsql\<close> (with its newline) when the trimmed line contains
  \<open>=mysql\<close> or \<open>=sqlite\<close> as a substring, and is left exactly unchanged otherwise. In
  particular it is rewritten when its value is \<open>mysql\<close> or \<open>sqlite\<close> and unchanged when
  its value is \<open>pgsql\<close>. The test is a substring test: a value that only begins with
  \<open>mysql\<close>, such as \<open>mysql2\<close>, is rewritten too, which is why "any other value is left
  unchanged" fails.
\<close>

theorem C1_db_connection:
  "startswith (strip line) ''DB_CONNECTION'' \<Longrightarrow>
     update_line line =
       (if contains (strip line) ''=mysql'' \<or> contains (strip line) ''=sqlite''
        then ''DB_CONNECTION=pgsql\<newline>'' else line) \<and>
     (env_value (strip line) = ''mysql'' \<or> env_value (strip line) = ''sqlite''
        \<longrightarrow> update_line line = ''DB_CONNECTION=pgsql\<newline>'') \<and>
     (env_value (strip line) = ''pgsql'' \<longrightarrow> update_line line = line)"
proof -
  assume a: "startswith (strip line) ''DB_CONNECTION''"
  then have u: "update_line line =
       (if contains (strip line) ''=mysql'' \<or> contains (strip line) ''=sqlite''
        then ''DB_CONNECTION=pgsql\<newline>'' else line)"
    by (simp add: update_line_def Let_def)
  have "contains (strip line) ''=mysql''" if "env_value (strip line) = ''mysql''"
    using env_value_contains [OF that] by simp
  moreover have "contains (strip line) ''=sqlite''" if "env_value (strip line) = ''sqlite''"
    using env_value_contains [OF that] by simp
  ultimately show ?thesis
    using u env_value_pgsql [of "strip line"] by auto
qed

text \<open>C1, a line the theorem applies to.\<close>

theorem C1_db_connection_witness:
  "startswith (strip ''DB_CONNECTION=sqlite\<newline>'') ''DB_CONNECTION'' \<and>
   env_value (strip ''DB_CONNECTION=sqlite\<newline>'') = ''sqlite'' \<and>
   update_line ''DB_CONNECTION=sqlite\<newline>'' = ''DB_CONNECTION=pgsql\<newline>''"
  using C1_db_connection [of "''DB_CONNECTION=sqlite\<newline>''"]
  by (simp add: strip_def lstrip_def rstrip_def isspace_def startswith_def env_value_def)

text \<open>
  C2. A line whose trimmed content starts with \<open>#\<close> and contains one of the five key
  substrings is rewritten to \<open>KEY=target\<close> for the first key it contains, in the order
  \<open>DB_HOST\<close>, \<open>DB_PORT\<close>, \<open>DB_DATABASE\<close>, \<open>DB_USERNAME\<close>, \<open>DB_PASSWORD\<close>. A commented
  \<open>DB_HOST\<close> line becomes exactly \<open>DB_HOST=pgsql\<close>, written \<open>#DB_HOST=...\<close> or
  \<open># DB_HOST=...\<close>. A file with the line \<open># DB_PORT=3306\<close> has the line \<open>DB_PORT=5432\<close>
  afterwards, and no file has a commented \<open>DB_PORT\<close> line (trimmed content starting with
  \<open>#\<close> and containing \<open>DB_PORT\<close>) after the update.
\<close>

theorem C2_commented_keys:
  "(startswith (strip line) ''#'' \<and> contains (strip line) ''DB_HOST''
      \<longrightarrow> update_line line = ''DB_HOST=pgsql\<newline>'') \<and>
   (startswith (strip line) ''#'' \<and> \<not> contains (strip line) ''DB_HOST'' \<and>
    contains (strip line) ''DB_PORT''
      \<longrightarrow> update_line line = ''DB_PORT=5432\<newline>'') \<and>
   (startswith (strip line) ''#'' \<and> \<not> contains (strip line) ''DB_HOST'' \<and>
    \<not> contains (strip line) ''DB_PORT'' \<and> contains (strip line) ''DB_DATABASE''
      \<longrightarrow> update_line line = ''DB_DATABASE=laravel\<newline>'') \<and>
   (startswith (strip line) ''#'' \<and> \<not> contains (strip line) ''DB_HOST'' \<and>
    \<not> contains (strip line) ''DB_PORT'' \<and> \<not> contains (strip line) ''DB_DATABASE'' \<and>
    contains (strip line) ''DB_USERNAME''
      \<longrightarrow> update_line line = ''DB_USERNAME=sail\<newline>'') \<and>
   (startswith (strip line) ''#'' \<and> \<not> contains (strip line) ''DB_HOST'' \<and>
    \<not> contains (strip line) ''DB_PORT'' \<and> \<not> contains (strip line) ''DB_DATABASE'' \<and>
    \<not> contains (strip line) ''DB_USERNAME'' \<and> contains (strip line) ''DB_PASSWORD''
      \<longrightarrow> update_line line = ''DB_PASSWORD=password\<newline>'') \<and>
   update_line ''#DB_HOST=127.0.0.1\<newline>'' = ''DB_HOST=pgsql\<newline>'' \<and>
   update_line ''# DB_HOST=127.0.0.1\<newline>'' = ''DB_HOST=pgsql\<newline>'' \<and>
   (l \<in> set (readlines content) \<and> strip l = ''# DB_PORT=3306''
      \<longrightarrow> ''DB_PORT=5432\<newline>'' \<in> set (readlines (update_env content))) \<and>
   (\<forall>l' \<in> set (readlines (update_env content)).
      \<not> (startswith (strip l') ''#'' \<and> contains (strip l') ''DB_PORT''))"
proof -
  have ex: "update_line ''#DB_HOST=127.0.0.1\<newline>'' = ''DB_HOST=pgsql\<newline>''"
      "update_line ''# DB_HOST=127.0.0.1\<newline>'' = ''DB_HOST=pgsql\<newline>''"
    by (simp_all add: update_line_def strip_def lstrip_def rstrip_def isspace_def startswith_def)
  have port: "update_line l = ''DB_PORT=5432\<newline>''" if "strip l = ''# DB_PORT=3306''"
    by (simp add: update_line_def that startswith_def)
  have infile: "''DB_PORT=5432\<newline>'' \<in> set (readlines (update_env content))"
    if "l \<in> set (readlines content)" and "strip l = ''# DB_PORT=3306''"
    using that port [OF that(2)] unfolding readlines_update_env updated_lines_def
    by (metis image_eqI set_map)
  have gone: "\<not> (startswith (strip l') ''#'' \<and> contains (strip l') ''DB_PORT'')"
    if "l' \<in> set (readlines (update_env content))" for l'
  proof -
    from that obtain l0 where "l' = update_line l0"
      unfolding readlines_update_env updated_lines_def by auto
    then show ?thesis
      using update_line_never_commented [of l0 "''DB_PORT''"] by simp
  qed
  show ?thesis
    using update_line_commented [of line] ex infile gone by simp
qed

text \<open>C2, a line and a file the theorem applies to.\<close>

theorem C2_commented_keys_witness:
  "startswith (strip ''# DB_PORT=3306\<newline>'') ''#'' \<and>
   \<not> contains (strip ''# DB_PORT=3306\<newline>'') ''DB_HOST'' \<and>
   contains (strip ''# DB_PORT=3306\<newline>'') ''DB_PORT'' \<and>
   update_line ''# DB_PORT=3306\<newline>'' = ''DB_PORT=5432\<newline>'' \<and>
   ''# DB_PORT=3306\<newline>'' \<in> set (readlines ''APP_ENV=local\<newline># DB_PORT=3306\<newline>'') \<and>
   strip ''# DB_PORT=3306\<newline>'' = ''# DB_PORT=3306'' \<and>
   ''DB_PORT=5432\<newline>'' \<in> set (readlines (update_env ''APP_ENV=local\<newline># DB_PORT=3306\<newline>'')) \<and>
   readlines (update_env ''APP_ENV=local\<newline># DB_PORT=3306\<newline>'')
     = [''APP_ENV=local\<newline>'', ''DB_PORT=5432\<newline>'']"
  using C2_commented_keys [of "''# DB_PORT=3306\<newline>''" "''# DB_PORT=3306\<newline>''"
      "''APP_ENV=local\<newline># DB_PORT=3306\<newline>''"]
  by (simp add: strip_def lstrip_def rstrip_def isspace_def startswith_def update_env_def
      writelines_def updated_lines_def update_line_def)

text \<open>
  C9, the claim as stated fails: this commented \<open>DB_CONNECTION\<close> line is rewritten, to the
  \<open>DB_HOST\<close> entry.
\<close>

theorem C9_counterexample:
  "startswith (strip ''# DB_CONNECTION=mysql # DB_HOST=127.0.0.1\<newline>'') ''#'' \<and>
   contains (strip ''# DB_CONNECTION=mysql # DB_HOST=127.0.0.1\<newline>'') ''DB_CONNECTION'' \<and>
   update_line ''# DB_CONNECTION=mysql # DB_HOST=127.0.0.1\<newline>'' = ''DB_HOST=pgsql\<newline>'' \<and>
   update_line ''# DB_CONNECTION=mysql # DB_HOST=127.0.0.1\<newline>''
     \<noteq> ''# DB_CONNECTION=mysql # DB_HOST=127.0.0.1\<newline>''"
  by (simp add: update_line_def strip_def lstrip_def rstrip_def isspace_def startswith_def)

text \<open>
  C9 (as amended). A commented line (trimmed content starting with \<open>#\<close>) that contains
  none of the five key substrings \<open>DB_HOST\<close>, \<open>DB_PORT\<close>, \<open>DB_DATABASE\<close>, \<open>DB_USERNAME\<close>,
  \<open>DB_PASSWORD\<close> passes through unchanged, so \<open># DB_CONNECTION=mysql\<close> does; and no
  commented line is ever rewritten to \<open>DB_CONNECTION=pgsql\<close>. A commented
  \<open>DB_CONNECTION\<close> line that also mentions one of the five keys is rewritten to that key's
  entry, which is why "never rewritten" fails.
\<close>

theorem C9_commented_connection:
  "(startswith (strip line) ''#'' \<and> \<not> contains (strip line) ''DB_HOST'' \<and>
    \<not> contains (strip line) ''DB_PORT'' \<and> \<not> contains (strip line) ''DB_DATABASE'' \<and>
    \<not> contains (strip line) ''DB_USERNAME'' \<and> \<not> contains (strip line) ''DB_PASSWORD''
      \<longrightarrow> update_line line = line) \<and>
   update_line ''# DB_CONNECTION=mysql\<newline>'' = ''# DB_CONNECTION=mysql\<newline>'' \<and>
   update_line ''#DB_CONNECTION=sqlite\<newline>'' = ''#DB_CONNECTION=sqlite\<newline>'' \<and>
   (startswith (strip line) ''#'' \<longrightarrow> update_line line \<noteq> ''DB_CONNECTION=pgsql\<newline>'')"
proof -
  have ex: "update_line ''# DB_CONNECTION=mysql\<newline>'' = ''# DB_CONNECTION=mysql\<newline>''"
      "update_line ''#DB_CONNECTION=sqlite\<newline>'' = ''#DB_CONNECTION=sqlite\<newline>''"
    by (simp_all add: update_line_def strip_def lstrip_def rstrip_def isspace_def startswith_def)
  have "update_line line \<noteq> ''DB_CONNECTION=pgsql\<newline>''" if h: "startswith (strip line) ''#''"
  proof
    assume e: "update_line line = ''DB_CONNECTION=pgsql\<newline>''"
    with update_line_commented [OF h] have "line = ''DB_CONNECTION=pgsql\<newline>''"
      by (simp split: if_splits)
    with h show False by (simp add: strip_lits startswith_def)
  qed
  then show ?thesis
    using update_line_commented [of line] ex by simp
qed

text \<open>C9, a line the theorem applies to.\<close>

theorem C9_commented_connection_witness:
  "startswith (strip ''  # DB_CONNECTION=mysql\<newline>'') ''#'' \<and>
   \<not> contains (strip ''  # DB_CONNECTION=mysql\<newline>'') ''DB_HOST'' \<and>
   \<not> contains (strip ''  # DB_CONNECTION=mysql\<newline>'') ''DB_PORT'' \<and>
   \<not> contains (strip ''  # DB_CONNECTION=mysql\<newline>'') ''DB_DATABASE'' \<and>
   \<not> contains (strip ''  # DB_CONNECTION=mysql\<newline>'') ''DB_USERNAME'' \<and>
   \<not> contains (strip ''  # DB_CONNECTION=mysql\<newline>'') ''DB_PASSWORD'' \<and>
   update_line ''  # DB_CONNECTION=mysql\<newline>'' = ''  # DB_CONNECTION=mysql\<newline>'' \<and>
   update_line ''  # DB_CONNECTION=mysql\<newline>'' \<noteq> ''DB_CONNECTION=pgsql\<newline>''"
  using C9_commented_connection [of "''  # DB_CONNECTION=mysql\<newline>''"]
  by (simp add: strip_def lstrip_def rstrip_def isspace_def startswith_def)

text \<open>
  C10. The update of .env is idempotent: on every content, on every list of lines and on
  every line, applying it twice gives what applying it once gives.
\<close>

theorem C10_update_env_idempotent:
  "update_env (update_env content) = update_env content \<and>
   updated_lines (updated_lines lines) = updated_lines lines \<and>
   update_line (update_line line) = update_line line"
  by (simp add: update_env_idem updated_lines_def update_line_idem)

section \<open>The claims about the substring edits\<close>

text \<open>
  C3, the claim as stated fails: a vite.config.js of two lines, holding the two anchors,
  has eleven lines after the update.
\<close>

theorem C3_counterexample:
  "line_count ''import laravel from 'laravel-vite-plugin';\<newline>        laravel({\<newline>'' = 2 \<and>
   line_count (update_vite ''import laravel from 'laravel-vite-plugin';\<newline>        laravel({\<newline>'') = 11"
  by (simp add: line_count_def update_vite_def vue_import_def laravel_import_def
      laravel_vue_import_def laravel_call_def vue_laravel_call_def)

text \<open>
  C3 (as amended). The update of .env and the update of composer.json leave the number
  of lines of the file unchanged. The update of vite.config.js inserts lines and removes
  none: when the content lacks the vue import, one line for every occurrence of the
  laravel import and, when the content then has no \<open>vue({\<close>, eight lines for every
  occurrence of the indented \<open>laravel({\<close>; otherwise none.
\<close>

theorem C3_line_count:
  "line_count (update_env c) = line_count c \<and>
   line_count (update_composer c) = line_count c \<and>
   line_count (update_vite c) =
     line_count c +
     (if contains c vue_import then 0
      else count_occ c laravel_import +
           (if contains (replace c laravel_import laravel_vue_import) ''vue({'' then 0
            else 8 * count_occ (replace c laravel_import laravel_vue_import) laravel_call)) \<and>
   line_count c \<le> line_count (update_vite c)"
  using update_env_count [of c] line_count_update_composer [of c] line_count_update_vite [of c]
  by (simp add: line_count_def)

text \<open>C3, a file of three lines, the last without its newline.\<close>

theorem C3_line_count_witness:
  "line_count (update_env ''APP_ENV=local\<newline># DB_PORT=3306\<newline>DB_HOST=127.0.0.1'') = 3 \<and>
   line_count ''APP_ENV=local\<newline># DB_PORT=3306\<newline>DB_HOST=127.0.0.1'' = 3"
  using C3_line_count [of "''APP_ENV=local\<newline># DB_PORT=3306\<newline>DB_HOST=127.0.0.1''"]
  by (simp add: line_count_def)

text \<open>
  C5. The substring edits are idempotent: on every content, updating composer.json twice
  gives what updating it once gives, and so does updating vite.config.js with its two
  guarded insertions. Nothing is inserted a second time.
\<close>

theorem C5_substring_edits_idempotent:
  "update_composer (update_composer c) = update_composer c \<and>
   update_vite (update_vite c) = update_vite c"
  by (simp add: update_composer_idem update_vite_idem)

text \<open>C5, on a manifest line and on a config with the anchor import.\<close>

theorem C5_substring_edits_idempotent_witness:
  "update_composer (update_composer ''\"dev\": \"php artisan serve\"'')
     = update_composer ''\"dev\": \"php artisan serve\"'' \<and>
   update_composer ''\"dev\": \"php artisan serve\"'' = ''\"dev\": \"./vendor/bin/sail artisan serve\"'' \<and>
   update_vite (update_vite ''import laravel from 'laravel-vite-plugin';\<newline>'')
     = update_vite ''import laravel from 'laravel-vite-plugin';\<newline>'' \<and>
   update_vite ''import laravel from 'laravel-vite-plugin';\<newline>''
     = ''import laravel from 'laravel-vite-plugin';\<newline>import vue from '@vitejs/plugin-vue';\<newline>''"
  using C5_substring_edits_idempotent [of "''\"dev\": \"php artisan serve\"''"]
    C5_substring_edits_idempotent [of "''import laravel from 'laravel-vite-plugin';\<newline>''"]
  by (simp add: update_composer_def update_vite_def vue_import_def laravel_import_def
      laravel_vue_import_def laravel_call_def)

text \<open>
  C8. The update of composer.json rewrites every occurrence of \<open>php artisan\<close> to
  \<open>./vendor/bin/sail artisan\<close> and changes no other text: the content is its pieces joined
  by \<open>php artisan\<close>, the result is the same pieces joined by
  \<open>./vendor/bin/sail artisan\<close>, no piece holds an occurrence, and no occurrence is left
  in the result.
\<close>

theorem C8_composer_replace:
  "update_composer c = join ''./vendor/bin/sail artisan'' (segments c ''php artisan'') \<and>
   c = join ''php artisan'' (segments c ''php artisan'') \<and>
   (\<forall>seg \<in> set (segments c ''php artisan''). \<not> contains seg ''php artisan'') \<and>
   \<not> contains (update_composer c) ''php artisan''"
  using update_composer_segments [of c] join_segments [of "''php artisan''" c]
    segments_free [of "''php artisan''" _ c] update_composer_removes [of c]
  by auto

text \<open>C8, a content with three occurrences.\<close>

theorem C8_composer_replace_witness:
  "segments ''a php artisan b php artisan c php artisan d'' ''php artisan'' = [''a '', '' b '', '' c '', '' d''] \<and>
   update_composer ''a php artisan b php artisan c php artisan d''
     = ''a ./vendor/bin/sail artisan b ./vendor/bin/sail artisan c ./vendor/bin/sail artisan d''"
  using C8_composer_replace [of "''a php artisan b php artisan c php artisan d''"]
  by simp

text \<open>
  C7, the claim as stated fails. A config that lacks the vue import and registers the
  plugin with four spaces of indentation gets the import line but no registration block
  before its \<open>laravel({\<close>; a config that lacks the vue import and the anchor import and
  holds \<open>vue({\<close> in a comment is not changed at all.
\<close>

theorem C7_counterexample:
  "\<not> contains ''import laravel from 'laravel-vite-plugin';\<newline>export default {\<newline>  plugins: [\<newline>    laravel({\<newline>'' vue_import \<and>
   contains ''import laravel from 'laravel-vite-plugin';\<newline>export default {\<newline>  plugins: [\<newline>    laravel({\<newline>'' ''laravel({'' \<and>
   update_vite ''import laravel from 'laravel-vite-plugin';\<newline>export default {\<newline>  plugins: [\<newline>    laravel({\<newline>''
     = ''import laravel from 'laravel-vite-plugin';\<newline>import vue from '@vitejs/plugin-vue';\<newline>export default {\<newline>  plugins: [\<newline>    laravel({\<newline>'' \<and>
   \<not> contains ''        // vue({\<newline>        laravel({\<newline>'' vue_import \<and>
   update_vite ''        // vue({\<newline>        laravel({\<newline>'' = ''        // vue({\<newline>        laravel({\<newline>''"
  by (simp add: update_vite_def vue_import_def laravel_import_def laravel_vue_import_def
      laravel_call_def vue_laravel_call_def)

text \<open>
  C7 (as amended). For a vite.config.js that lacks the vue import: the content is its
  pieces joined by the anchor import, none of the pieces holding the anchor, and the
  first edit gives the same pieces joined by the anchor followed by the vue import line,
  so the line is inserted right after every occurrence of the anchor and nothing else is
  altered (nothing at all when the anchor is absent). When the content so obtained holds
  \<open>vue({\<close> it is the result. Otherwise the result is the pieces of that content between
  the occurrences of the anchor \<open>laravel({\<close> with eight spaces before it, joined by the
  registration block followed by the anchor: the block is inserted right before every
  occurrence of the indented anchor and nothing else is altered.
\<close>

theorem C7_vite_insertions:
  "\<not> contains c vue_import \<Longrightarrow>
     c = join laravel_import (segments c laravel_import) \<and>
     (\<forall>seg \<in> set (segments c laravel_import). \<not> contains seg laravel_import) \<and>
     laravel_vue_import = laravel_import @ ''\<newline>import vue from '@vitejs/plugin-vue';'' \<and>
     (contains (join laravel_vue_import (segments c laravel_import)) ''vue({'' \<longrightarrow>
        update_vite c = join laravel_vue_import (segments c laravel_import)) \<and>
     (\<not> contains (join laravel_vue_import (segments c laravel_import)) ''vue({'' \<longrightarrow>
        update_vite c =
          join vue_laravel_call
            (segments (join laravel_vue_import (segments c laravel_import)) laravel_call) \<and>
        join laravel_vue_import (segments c laravel_import) =
          join laravel_call
            (segments (join laravel_vue_import (segments c laravel_import)) laravel_call) \<and>
        (\<forall>seg \<in> set (segments (join laravel_vue_import (segments c laravel_import)) laravel_call).
           \<not> contains seg laravel_call)) \<and>
     vue_laravel_call =
       ''        vue({\<newline>            template: {\<newline>                transformAssetUrls: {\<newline>                    base: null,\<newline>                    includeAbsolute: false,\<newline>                },\<newline>            },\<newline>        }),\<newline>''
       @ laravel_call"
proof -
  assume a: "\<not> contains c vue_import"
  let ?c1 = "join laravel_vue_import (segments c laravel_import)"
  have r1: "replace c laravel_import laravel_vue_import = ?c1"
    by (rule replace_join [OF vite_facts(3)])
  have r2: "replace ?c1 laravel_call vue_laravel_call = join vue_laravel_call (segments ?c1 laravel_call)"
    by (rule replace_join [OF vite_facts(4)])
  have u: "update_vite c = (if contains ?c1 ''vue({'' then ?c1
      else join vue_laravel_call (segments ?c1 laravel_call))"
    using a by (simp add: update_vite_def Let_def r1 r2)
  have f1: "\<forall>seg \<in> set (segments c laravel_import). \<not> contains seg laravel_import"
    using segments_free [OF vite_facts(3)] by blast
  have f2: "\<forall>seg \<in> set (segments ?c1 laravel_call). \<not> contains seg laravel_call"
    using segments_free [OF vite_facts(4)] by blast
  show ?thesis
    using u f1 f2 join_segments [of laravel_import c] join_segments [of laravel_call ?c1]
      vite_facts(1,2)
    by simp
qed




text \<open>C7, the config of a fresh project.\<close>

theorem C7_vite_insertions_witness:
  "\<not> contains
      ''import { defineConfig } from 'vite';\<newline>import laravel from 'laravel-vite-plugin';\<newline>\<newline>export default defineConfig({\<newline>    plugins: [\<newline>        laravel({\<newline>            input: ['resources/css/app.css', 'resources/js/app.js'],\<newline>            refresh: true,\<newline>        }),\<newline>    ],\<newline>});\<newline>''
      vue_import \<and>
   update_vite
      ''import { defineConfig } from 'vite';\<newline>import laravel from 'laravel-vite-plugin';\<newline>\<newline>export default defineConfig({\<newline>    plugins: [\<newline>        laravel({\<newline>            input: ['resources/css/app.css', 'resources/js/app.js'],\<newline>            refresh: true,\<newline>        }),\<newline>    ],\<newline>});\<newline>''
    = ''import { defineConfig } from 'vite';\<newline>import laravel from 'laravel-vite-plugin';\<newline>import vue from '@vitejs/plugin-vue';\<newline>\<newline>export default defineConfig({\<newline>    plugins: [\<newline>        vue({\<newline>            template: {\<newline>                transformAssetUrls: {\<newline>                    base: null,\<newline>                    includeAbsolute: false,\<newline>                },\<newline>            },\<newline>        }),\<newline>        laravel({\<newline>            input: ['resources/css/app.css', 'resources/js/app.js'],\<newline>            refresh: true,\<newline>        }),\<newline>    ],\<newline>});\<newline>''"
proof -
  let ?c = "''import { defineConfig } from 'vite';\<newline>import laravel from 'laravel-vite-plugin';\<newline>\<newline>export default defineConfig({\<newline>    plugins: [\<newline>        laravel({\<newline>            input: ['resources/css/app.css', 'resources/js/app.js'],\<newline>            refresh: true,\<newline>        }),\<newline>    ],\<newline>});\<newline>''"
  have h: "\<not> contains ?c vue_import"
    by (simp add: vue_import_def)
  have r: "update_vite ?c
    = ''import { defineConfig } from 'vite';\<newline>import laravel from 'laravel-vite-plugin';\<newline>import vue from '@vitejs/plugin-vue';\<newline>\<newline>export default defineConfig({\<newline>    plugins: [\<newline>        vue({\<newline>            template: {\<newline>                transformAssetUrls: {\<newline>                    base: null,\<newline>                    includeAbsolute: false,\<newline>                },\<newline>            },\<newline>        }),\<newline>        laravel({\<newline>            input: ['resources/css/app.css', 'resources/js/app.js'],\<newline>            refresh: true,\<newline>        }),\<newline>    ],\<newline>});\<newline>''"
    by (simp add: update_vite_def vue_import_def laravel_import_def laravel_vue_import_def
      laravel_call_def vue_laravel_call_def)
  show ?thesis
    using C7_vite_insertions [OF h] by (intro conjI) (rule h, rule r)
qed

section \<open>The claims about the run of the script\<close>

text \<open>
  C4. When a statement of the script raises, in particular when an external command exits
  non-zero or cannot be launched, the run ends there: the outcome is the exception in the
  world the failing statement left, whatever statements follow (none of them runs, so the
  notice of completion that follows a command is not printed), the failed command adds
  nothing to the output, and the world keeps everything the earlier statements and the
  command itself did (nothing is undone). A command that exits non-zero or cannot be
  launched always raises.
\<close>

theorem C4_abort_on_failure:
  "script sys script_dir project_name = pre @ s # post \<Longrightarrow>
   seq pre w = (None, w1) \<Longrightarrow>
   s w1 = (Some e, w2) \<Longrightarrow>
     seq (script sys script_dir project_name) w = (Some e, w2) \<and>
     seq (pre @ s # post') w = (Some e, w2) \<and>
     (s = run sys cmd \<longrightarrow>
        fst (sys cmd w1) \<noteq> Some 0 \<and>
        w2 = w1\<lparr>fs := snd (sys cmd w1)\<rparr> \<and>
        stdout w2 = stdout w1 \<and>
        e = (case fst (sys cmd w1) of
               None \<Rightarrow> ExecError cmd
             | Some returncode \<Rightarrow> CalledProcessError returncode cmd)) \<and>
     (fst (sys cmd w') \<noteq> Some 0 \<longrightarrow> fst (run sys cmd w') \<noteq> None)"
proof -
  assume a: "script sys script_dir project_name = pre @ s # post"
    and b: "seq pre w = (None, w1)" and c: "s w1 = (Some e, w2)"
  have "seq (pre @ s # post) w = (Some e, w2)" and "seq (pre @ s # post') w = (Some e, w2)"
    using b c by (rule seq_abort)+
  moreover have "fst (sys cmd w1) \<noteq> Some 0 \<and> w2 = w1\<lparr>fs := snd (sys cmd w1)\<rparr> \<and>
      stdout w2 = stdout w1 \<and>
      e = (case fst (sys cmd w1) of None \<Rightarrow> ExecError cmd
           | Some returncode \<Rightarrow> CalledProcessError returncode cmd)" if "s = run sys cmd"
    using run_raises [of sys cmd w1 e w2] c that by auto
  ultimately show ?thesis
    using a run_fails [of sys cmd w'] by simp
qed

text \<open>C4, a run in which the first command exits with code 1.\<close>

theorem C4_abort_on_failure_witness:
  "seq (script (\<lambda>cmd w. (Some 1, fs w)) [''srv''] ''app'')
       \<lparr>fs = Map.empty, cwd = [], stdin = [], stdout = []\<rparr>
   = (Some (CalledProcessError 1 (Argv [''composer'', ''global'', ''require'', ''laravel/installer''])),
      \<lparr>fs = Map.empty, cwd = [], stdin = [], stdout = [''Installing Laravel installer...\<newline>'']\<rparr>)"
proof -
  let ?sys = "\<lambda>(cmd :: command) (w :: world). (Some (1 :: int), fs w)"
  let ?script = "script ?sys [''srv''] ''app''"
  let ?w1 = "\<lparr>fs = Map.empty, cwd = [], stdin = [], stdout = [''Installing Laravel installer...\<newline>'']\<rparr>"
  have h1: "?script = [print ''Installing Laravel installer...'']
      @ run ?sys (Argv [''composer'', ''global'', ''require'', ''laravel/installer''])
      # drop 2 ?script"
    by (simp add: script_def)
  have h2: "seq [print ''Installing Laravel installer...'']
      \<lparr>fs = Map.empty, cwd = [], stdin = [], stdout = []\<rparr> = (None, ?w1)"
    by (simp add: print_def)
  have h3: "run ?sys (Argv [''composer'', ''global'', ''require'', ''laravel/installer'']) ?w1
      = (Some (CalledProcessError 1 (Argv [''composer'', ''global'', ''require'', ''laravel/installer''])), ?w1)"
    by (simp add: run_def)
  from C4_abort_on_failure [OF h1 h2 h3] show ?thesis by (rule conjunct1)
qed

text \<open>
  C6. When the run reaches one of the three update steps (.env, composer.json,
  vite.config.js) and its target file does not exist, the step only prints its warning,
  raises nothing, and the run goes on with the statements that follow. A \<open>write_text\<close>
  that cannot open its file (no parent directory) ends the run with the exception. The
  three update steps are statements of the script.
\<close>

theorem C6_missing_edit_target:
  "script sys script_dir project_name = pre @ s # post \<Longrightarrow>
   seq pre w = (None, w1) \<Longrightarrow>
     (s = update_env_step \<and> \<not> exists w1 (Path ''.env'') \<longrightarrow>
        s w1 = (None, w1\<lparr>stdout := stdout w1 @ [''Warning: .env file not found\<newline>'']\<rparr>) \<and>
        seq (script sys script_dir project_name) w
          = seq post (w1\<lparr>stdout := stdout w1 @ [''Warning: .env file not found\<newline>'']\<rparr>)) \<and>
     (s = update_composer_step \<and> \<not> exists w1 (Path ''composer.json'') \<longrightarrow>
        s w1 = (None, w1\<lparr>stdout := stdout w1 @ [''Warning: composer.json file not found\<newline>'']\<rparr>) \<and>
        seq (script sys script_dir project_name) w
          = seq post (w1\<lparr>stdout := stdout w1 @ [''Warning: composer.json file not found\<newline>'']\<rparr>)) \<and>
     (s = update_vite_step \<and> \<not> exists w1 (Path ''vite.config.js'') \<longrightarrow>
        s w1 = (None, w1\<lparr>stdout := stdout w1 @ [''Warning: vite.config.js file not found\<newline>'']\<rparr>) \<and>
        seq (script sys script_dir project_name) w
          = seq post (w1\<lparr>stdout := stdout w1 @ [''Warning: vite.config.js file not found\<newline>'']\<rparr>)) \<and>
     (s = write_text p content \<and> \<not> is_dir (fs w1) (butlast (cwd w1 @ p)) \<longrightarrow>
        seq (script sys script_dir project_name) w = (Some (OSError p), w1)) \<and>
     update_env_step \<in> set (script sys script_dir project_name) \<and>
     update_composer_step \<in> set (script sys script_dir project_name) \<and>
     update_vite_step \<in> set (script sys script_dir project_name)"
proof -
  assume a: "script sys script_dir project_name = pre @ s # post"
    and b: "seq pre w = (None, w1)"
  have skip: "s w1 = (None, w1\<lparr>stdout := stdout w1 @ [msg @ ''\<newline>'']\<rparr>) \<and>
      seq (script sys script_dir project_name) w
        = seq post (w1\<lparr>stdout := stdout w1 @ [msg @ ''\<newline>'']\<rparr>)"
    if "s = if_exists q t (print msg)" and "\<not> exists w1 q" for q t msg
  proof -
    from that have "s w1 = (None, w1\<lparr>stdout := stdout w1 @ [msg @ ''\<newline>'']\<rparr>)"
      by (simp add: missing_target)
    with b show ?thesis unfolding a by (simp add: seq_continue)
  qed
  have fatal: "seq (script sys script_dir project_name) w = (Some (OSError p), w1)"
    if "s = write_text p content" and "\<not> is_dir (fs w1) (butlast (cwd w1 @ p))"
  proof -
    from that have "s w1 = (Some (OSError p), w1)" by (simp add: write_text_fails)
    with b show ?thesis unfolding a by (rule seq_abort)
  qed
  have mem: "update_env_step \<in> set (script sys script_dir project_name)"
      "update_composer_step \<in> set (script sys script_dir project_name)"
      "update_vite_step \<in> set (script sys script_dir project_name)"
    by (simp_all add: script_def)
  show ?thesis
    using skip [of "Path ''.env''" _ "''Warning: .env file not found''"]
      skip [of "Path ''composer.json''" _ "''Warning: composer.json file not found''"]
      skip [of "Path ''vite.config.js''" _ "''Warning: vite.config.js file not found''"]
      fatal mem
    by (simp add: update_env_step_def update_composer_step_def update_vite_step_def)
qed

text \<open>
  C6, a run in which every command succeeds and changes nothing: the project directory
  holds no .env when the update step is reached.
\<close>

theorem C6_missing_edit_target_witness:
  "\<not> exists
       \<lparr>fs = [[''srv''] \<mapsto> Dir, [''srv'', ''app''] \<mapsto> Dir,
              [''srv'', ''app'', ''docker-compose.yml''] \<mapsto> File docker_compose_content],
        cwd = [''srv'', ''app''], stdin = [],
        stdout = [''Installing Laravel installer...\<newline>'',
                  ''Laravel installer installed successfully\<newline>'',
                  ''Creating Laravel project 'app'...\<newline>'',
                  ''Laravel project 'app' created successfully\<newline>'',
                  ''Installing Laravel Sail...\<newline>'',
                  ''Laravel Sail installed successfully\<newline>'',
                  ''Creating docker-compose.yml with PostgreSQL...\<newline>'',
                  ''docker-compose.yml created successfully\<newline>'',
                  ''Updating .env file with PostgreSQL configuration...\<newline>'']\<rparr>
       (Path ''.env'') \<and>
   seq (script (\<lambda>cmd w. (Some 0, fs w)) [''srv''] ''app'')
       \<lparr>fs = [[''srv''] \<mapsto> Dir, [''srv'', ''app''] \<mapsto> Dir], cwd = [], stdin = [], stdout = []\<rparr>
   = seq (drop 16 (script (\<lambda>cmd w. (Some 0, fs w)) [''srv''] ''app''))
       \<lparr>fs = [[''srv''] \<mapsto> Dir, [''srv'', ''app''] \<mapsto> Dir,
              [''srv'', ''app'', ''docker-compose.yml''] \<mapsto> File docker_compose_content],
        cwd = [''srv'', ''app''], stdin = [],
        stdout = [''Installing Laravel installer...\<newline>'',
                  ''Laravel installer installed successfully\<newline>'',
                  ''Creating Laravel project 'app'...\<newline>'',
                  ''Laravel project 'app' created successfully\<newline>'',
                  ''Installing Laravel Sail...\<newline>'',
                  ''Laravel Sail installed successfully\<newline>'',
                  ''Creating docker-compose.yml with PostgreSQL...\<newline>'',
                  ''docker-compose.yml created successfully\<newline>'',
                  ''Updating .env file with PostgreSQL configuration...\<newline>'',
                  ''Warning: .env file not found\<newline>'']\<rparr>"
proof -
  let ?sys = "\<lambda>(cmd :: command) (w :: world). (Some (0 :: int), fs w)"
  let ?script = "script ?sys [''srv''] ''app''"
  let ?w0 = "\<lparr>fs = [[''srv''] \<mapsto> Dir, [''srv'', ''app''] \<mapsto> Dir], cwd = [], stdin = [], stdout = []\<rparr>"
  let ?w1 = "\<lparr>fs = [[''srv''] \<mapsto> Dir, [''srv'', ''app''] \<mapsto> Dir,
              [''srv'', ''app'', ''docker-compose.yml''] \<mapsto> File docker_compose_content],
        cwd = [''srv'', ''app''], stdin = [],
        stdout = [''Installing Laravel installer...\<newline>'',
                  ''Laravel installer installed successfully\<newline>'',
                  ''Creating Laravel project 'app'...\<newline>'',
                  ''Laravel project 'app' created successfully\<newline>'',
                  ''Installing Laravel Sail...\<newline>'',
                  ''Laravel Sail installed successfully\<newline>'',
                  ''Creating docker-compose.yml with PostgreSQL...\<newline>'',
                  ''docker-compose.yml created successfully\<newline>'',
                  ''Updating .env file with PostgreSQL configuration...\<newline>'']\<rparr>"
  have p: "Path ''.env'' = [''.env'']" "Path ''docker-compose.yml'' = [''docker-compose.yml'']"
    "joinpath [''srv''] ''app'' = [''srv'', ''app'']"
    by (simp_all add: Path_def joinpath_def parts_def startswith_def)
  have h1: "?script = take 15 ?script @ update_env_step # drop 16 ?script"
    by (simp add: script_def)
  have h2: "seq (take 15 ?script) ?w0 = (None, ?w1)"
    by (simp add: script_def p print_def run_def chdir_def write_text_def is_dir_def)
  have h3: "\<not> exists ?w1 (Path ''.env'')"
    by (simp add: p exists_def)
  from C6_missing_edit_target [OF h1 h2] h3 show ?thesis
    by simp
qed

end
